theory Spec2Isabelle
  imports Main "HOL-Library.Word" "HOL-Library.Monad_Syntax"
begin

section \<open>The StItem wire format\<close>

type_synonym byte = "8 word"
type_synonym bytes = "byte list"
type_synonym u64 = "64 word"

subsection \<open>Data model\<close>

text \<open>
  Modelled from the spec: the types of the wire format are not among the source files.
  They follow the data model: a namespace is a tagged union with the one variant
  \<open>NamespaceEd25519V1\<close>, and an item is a tagged union of eight variants, some of which
  embed others as plain structures.  A node hash is a byte string.
\<close>

datatype Namespace =
  NamespaceEd25519V1 (ns_namespace: bytes) (ns_public_key: bytes)

record TreeHeadV1 =
  timestamp :: u64
  tree_size :: u64
  root_hash :: bytes
  extensions :: bytes

record SignedTreeHeadV1 =
  tree_head :: TreeHeadV1
  sth_log_id :: bytes
  sth_signature :: bytes

record SignatureV1 =
  sig_namespace :: Namespace
  sig_signature :: bytes

record CosignedTreeHeadV1 =
  sth :: SignedTreeHeadV1
  cosignatures :: "SignatureV1 list"

record ChecksumV1 =
  package :: bytes
  checksum :: bytes
  cs_namespace :: Namespace

record InclusionProofV1 =
  ip_log_id :: bytes
  ip_tree_size :: u64
  ip_leaf_index :: u64
  ip_path :: "bytes list"

record ConsistencyProofV1 =
  cp_log_id :: bytes
  cp_tree_size1 :: u64
  cp_tree_size2 :: u64
  cp_path :: "bytes list"

record SignedDebugInfoV1 =
  sdi_log_id :: bytes
  sdi_message :: bytes
  sdi_signature :: bytes

datatype StFormat =
    StFormatChecksumV1
  | StFormatSignedTreeHeadV1
  | StFormatTreeHeadV1
  | StFormatCosignedTreeHeadV1
  | StFormatSignatureV1
  | StFormatInclusionProofV1
  | StFormatConsistencyProofV1
  | StFormatSignedDebugInfoV1

datatype StItem =
    ItemChecksumV1 ChecksumV1
  | ItemSignedTreeHeadV1 SignedTreeHeadV1
  | ItemTreeHeadV1 TreeHeadV1
  | ItemCosignedTreeHeadV1 CosignedTreeHeadV1
  | ItemSignatureV1 SignatureV1
  | ItemInclusionProofV1 InclusionProofV1
  | ItemConsistencyProofV1 ConsistencyProofV1
  | ItemSignedDebugInfoV1 SignedDebugInfoV1

fun Format :: "StItem \<Rightarrow> StFormat" where
  "Format (ItemChecksumV1 _) = StFormatChecksumV1"
| "Format (ItemSignedTreeHeadV1 _) = StFormatSignedTreeHeadV1"
| "Format (ItemTreeHeadV1 _) = StFormatTreeHeadV1"
| "Format (ItemCosignedTreeHeadV1 _) = StFormatCosignedTreeHeadV1"
| "Format (ItemSignatureV1 _) = StFormatSignatureV1"
| "Format (ItemInclusionProofV1 _) = StFormatInclusionProofV1"
| "Format (ItemConsistencyProofV1 _) = StFormatConsistencyProofV1"
| "Format (ItemSignedDebugInfoV1 _) = StFormatSignedDebugInfoV1"

definition all_formats :: "StFormat list" where
  "all_formats =
     [StFormatChecksumV1, StFormatSignedTreeHeadV1, StFormatTreeHeadV1,
      StFormatCosignedTreeHeadV1, StFormatSignatureV1, StFormatInclusionProofV1,
      StFormatConsistencyProofV1, StFormatSignedDebugInfoV1]"

subsection \<open>Codec\<close>

text \<open>
  Modelled from the spec: the codec (\<open>StItem.Marshal\<close>, \<open>StItem.Unmarshal\<close> and the
  types above) is not among the source files; only its callers and tests are.  The
  definitions follow the wire rules: fixed-width integers are big-endian; a
  variable-length field is prefixed by its length, in the smallest width sufficient for
  the field's declared maximum; a tagged union begins with a 2-byte format tag; decoding
  fails on an unknown tag, on a field that overruns the buffer, and on trailing bytes.

  The rules leave the tag values and most declared maxima open.  They are the
  parameters of the codec, collected in a record; the one maximum that is given (a
  package of at most 256 bytes) and the fixed sizes (32 bytes for a checksum and for the
  two halves of an Ed25519 namespace) are written into the definitions.
\<close>

record codec =
  st_tag :: "StFormat \<Rightarrow> nat"
  ns_tag :: nat
  max_log_id :: nat
  max_signature :: nat
  max_extensions :: nat
  max_message :: nat
  max_node_hash :: nat
  max_path :: nat
  max_cosignatures :: nat

definition max_package :: nat where
  "max_package = 256"

fun nat_to_be :: "nat \<Rightarrow> nat \<Rightarrow> bytes" where
  "nat_to_be 0 n = []"
| "nat_to_be (Suc w) n = nat_to_be w (n div 256) @ [of_nat (n mod 256)]"

definition be_to_nat :: "bytes \<Rightarrow> nat" where
  "be_to_nat bs = foldl (\<lambda>a b. 256 * a + unat b) 0 bs"

fun len_width :: "nat \<Rightarrow> nat" where
  "len_width m = (if m < 256 then 1 else Suc (len_width (m div 256)))"

declare len_width.simps [simp del]

definition get_fixed :: "nat \<Rightarrow> bytes \<Rightarrow> (bytes \<times> bytes) option" where
  "get_fixed n bs = (if length bs < n then None else Some (take n bs, drop n bs))"

definition put_uint :: "nat \<Rightarrow> nat \<Rightarrow> bytes" where
  "put_uint w n = nat_to_be w n"

definition get_uint :: "nat \<Rightarrow> bytes \<Rightarrow> (nat \<times> bytes) option" where
  "get_uint w bs = do { (v, r) \<leftarrow> get_fixed w bs; Some (be_to_nat v, r) }"

definition put_u64 :: "u64 \<Rightarrow> bytes" where
  "put_u64 x = put_uint 8 (unat x)"

definition get_u64 :: "bytes \<Rightarrow> (u64 \<times> bytes) option" where
  "get_u64 bs = do { (n, r) \<leftarrow> get_uint 8 bs; Some (of_nat n, r) }"

definition put_opaque :: "nat \<Rightarrow> bytes \<Rightarrow> bytes" where
  "put_opaque mx xs = put_uint (len_width mx) (length xs) @ xs"

definition get_opaque :: "nat \<Rightarrow> bytes \<Rightarrow> (bytes \<times> bytes) option" where
  "get_opaque mx bs = do { (n, r) \<leftarrow> get_uint (len_width mx) bs; get_fixed n r }"

text \<open>A list field is the concatenation of its elements' encodings, prefixed by the
  length of that concatenation in bytes.  Decoding reads elements until the field is
  used up; an element decoder that consumes nothing would not end, and is a failure.\<close>

function get_many :: "(bytes \<Rightarrow> ('a \<times> bytes) option) \<Rightarrow> bytes \<Rightarrow> 'a list option" where
  "get_many dec bs =
     (if bs = [] then Some []
      else case dec bs of
             None \<Rightarrow> None
           | Some (x, r) \<Rightarrow>
               if length r < length bs
               then (case get_many dec r of None \<Rightarrow> None | Some xs \<Rightarrow> Some (x # xs))
               else None)"
  by pat_completeness auto
termination
  by (relation "measure (\<lambda>(dec, bs). length bs)") auto

definition put_list :: "nat \<Rightarrow> ('a \<Rightarrow> bytes) \<Rightarrow> 'a list \<Rightarrow> bytes" where
  "put_list mx enc xs = put_opaque mx (concat (map enc xs))"

definition get_list ::
  "nat \<Rightarrow> (bytes \<Rightarrow> ('a \<times> bytes) option) \<Rightarrow> bytes \<Rightarrow> ('a list \<times> bytes) option" where
  "get_list mx dec bs = do { (body, r) \<leftarrow> get_opaque mx bs; xs \<leftarrow> get_many dec body; Some (xs, r) }"

subsubsection \<open>Namespace\<close>

text \<open>Modelled from the spec: a namespace is its 2-byte tag and two fields of 32 bytes;
  decoding fails on any other tag.\<close>

definition put_namespace :: "codec \<Rightarrow> Namespace \<Rightarrow> bytes" where
  "put_namespace C ns = put_uint 2 (ns_tag C) @ ns_namespace ns @ ns_public_key ns"

definition get_namespace :: "codec \<Rightarrow> bytes \<Rightarrow> (Namespace \<times> bytes) option" where
  "get_namespace C bs = do {
     (t, r) \<leftarrow> get_uint 2 bs;
     if t \<noteq> ns_tag C then None
     else do {
       (a, r) \<leftarrow> get_fixed 32 r;
       (b, r) \<leftarrow> get_fixed 32 r;
       Some (NamespaceEd25519V1 a b, r) } }"

subsubsection \<open>Structures\<close>

text \<open>Modelled from the spec: a structure is the concatenation of its fields in the order
  of the data model; an embedded structure has no tag of its own.\<close>

definition put_tree_head :: "codec \<Rightarrow> TreeHeadV1 \<Rightarrow> bytes" where
  "put_tree_head C th =
     put_u64 (timestamp th) @ put_u64 (tree_size th)
     @ put_opaque (max_node_hash C) (root_hash th)
     @ put_opaque (max_extensions C) (extensions th)"

definition get_tree_head :: "codec \<Rightarrow> bytes \<Rightarrow> (TreeHeadV1 \<times> bytes) option" where
  "get_tree_head C bs = do {
     (ts, r) \<leftarrow> get_u64 bs;
     (sz, r) \<leftarrow> get_u64 r;
     (rh, r) \<leftarrow> get_opaque (max_node_hash C) r;
     (ex, r) \<leftarrow> get_opaque (max_extensions C) r;
     Some (\<lparr>timestamp = ts, tree_size = sz, root_hash = rh, extensions = ex\<rparr>, r) }"

definition put_signed_tree_head :: "codec \<Rightarrow> SignedTreeHeadV1 \<Rightarrow> bytes" where
  "put_signed_tree_head C s =
     put_tree_head C (tree_head s)
     @ put_opaque (max_log_id C) (sth_log_id s)
     @ put_opaque (max_signature C) (sth_signature s)"

definition get_signed_tree_head ::
  "codec \<Rightarrow> bytes \<Rightarrow> (SignedTreeHeadV1 \<times> bytes) option" where
  "get_signed_tree_head C bs = do {
     (th, r) \<leftarrow> get_tree_head C bs;
     (li, r) \<leftarrow> get_opaque (max_log_id C) r;
     (sg, r) \<leftarrow> get_opaque (max_signature C) r;
     Some (\<lparr>tree_head = th, sth_log_id = li, sth_signature = sg\<rparr>, r) }"

definition put_signature :: "codec \<Rightarrow> SignatureV1 \<Rightarrow> bytes" where
  "put_signature C s =
     put_namespace C (sig_namespace s) @ put_opaque (max_signature C) (sig_signature s)"

definition get_signature :: "codec \<Rightarrow> bytes \<Rightarrow> (SignatureV1 \<times> bytes) option" where
  "get_signature C bs = do {
     (ns, r) \<leftarrow> get_namespace C bs;
     (sg, r) \<leftarrow> get_opaque (max_signature C) r;
     Some (\<lparr>sig_namespace = ns, sig_signature = sg\<rparr>, r) }"

definition put_cosigned_tree_head :: "codec \<Rightarrow> CosignedTreeHeadV1 \<Rightarrow> bytes" where
  "put_cosigned_tree_head C c =
     put_signed_tree_head C (sth c)
     @ put_list (max_cosignatures C) (put_signature C) (cosignatures c)"

definition get_cosigned_tree_head ::
  "codec \<Rightarrow> bytes \<Rightarrow> (CosignedTreeHeadV1 \<times> bytes) option" where
  "get_cosigned_tree_head C bs = do {
     (s, r) \<leftarrow> get_signed_tree_head C bs;
     (cs, r) \<leftarrow> get_list (max_cosignatures C) (get_signature C) r;
     Some (\<lparr>sth = s, cosignatures = cs\<rparr>, r) }"

definition put_checksum :: "codec \<Rightarrow> ChecksumV1 \<Rightarrow> bytes" where
  "put_checksum C c =
     put_opaque max_package (package c) @ checksum c @ put_namespace C (cs_namespace c)"

definition get_checksum :: "codec \<Rightarrow> bytes \<Rightarrow> (ChecksumV1 \<times> bytes) option" where
  "get_checksum C bs = do {
     (p, r) \<leftarrow> get_opaque max_package bs;
     (c, r) \<leftarrow> get_fixed 32 r;
     (ns, r) \<leftarrow> get_namespace C r;
     Some (\<lparr>package = p, checksum = c, cs_namespace = ns\<rparr>, r) }"

definition put_inclusion_proof :: "codec \<Rightarrow> InclusionProofV1 \<Rightarrow> bytes" where
  "put_inclusion_proof C p =
     put_opaque (max_log_id C) (ip_log_id p)
     @ put_u64 (ip_tree_size p) @ put_u64 (ip_leaf_index p)
     @ put_list (max_path C) (put_opaque (max_node_hash C)) (ip_path p)"

definition get_inclusion_proof ::
  "codec \<Rightarrow> bytes \<Rightarrow> (InclusionProofV1 \<times> bytes) option" where
  "get_inclusion_proof C bs = do {
     (li, r) \<leftarrow> get_opaque (max_log_id C) bs;
     (sz, r) \<leftarrow> get_u64 r;
     (ix, r) \<leftarrow> get_u64 r;
     (pa, r) \<leftarrow> get_list (max_path C) (get_opaque (max_node_hash C)) r;
     Some (\<lparr>ip_log_id = li, ip_tree_size = sz, ip_leaf_index = ix, ip_path = pa\<rparr>, r) }"

definition put_consistency_proof :: "codec \<Rightarrow> ConsistencyProofV1 \<Rightarrow> bytes" where
  "put_consistency_proof C p =
     put_opaque (max_log_id C) (cp_log_id p)
     @ put_u64 (cp_tree_size1 p) @ put_u64 (cp_tree_size2 p)
     @ put_list (max_path C) (put_opaque (max_node_hash C)) (cp_path p)"

definition get_consistency_proof ::
  "codec \<Rightarrow> bytes \<Rightarrow> (ConsistencyProofV1 \<times> bytes) option" where
  "get_consistency_proof C bs = do {
     (li, r) \<leftarrow> get_opaque (max_log_id C) bs;
     (s1, r) \<leftarrow> get_u64 r;
     (s2, r) \<leftarrow> get_u64 r;
     (pa, r) \<leftarrow> get_list (max_path C) (get_opaque (max_node_hash C)) r;
     Some (\<lparr>cp_log_id = li, cp_tree_size1 = s1, cp_tree_size2 = s2, cp_path = pa\<rparr>, r) }"

definition put_signed_debug_info :: "codec \<Rightarrow> SignedDebugInfoV1 \<Rightarrow> bytes" where
  "put_signed_debug_info C d =
     put_opaque (max_log_id C) (sdi_log_id d)
     @ put_opaque (max_message C) (sdi_message d)
     @ put_opaque (max_signature C) (sdi_signature d)"

definition get_signed_debug_info ::
  "codec \<Rightarrow> bytes \<Rightarrow> (SignedDebugInfoV1 \<times> bytes) option" where
  "get_signed_debug_info C bs = do {
     (li, r) \<leftarrow> get_opaque (max_log_id C) bs;
     (ms, r) \<leftarrow> get_opaque (max_message C) r;
     (sg, r) \<leftarrow> get_opaque (max_signature C) r;
     Some (\<lparr>sdi_log_id = li, sdi_message = ms, sdi_signature = sg\<rparr>, r) }"

subsubsection \<open>StItem\<close>

text \<open>Modelled from the spec: \<open>Marshal\<close> writes the 2-byte tag of the item's format and
  then the body; \<open>Unmarshal\<close> reads the tag, fails with \<open>MalformedItem\<close> when no format
  has it, decodes the body of that format, and fails when bytes are left over.\<close>

fun put_body :: "codec \<Rightarrow> StItem \<Rightarrow> bytes" where
  "put_body C (ItemChecksumV1 x) = put_checksum C x"
| "put_body C (ItemSignedTreeHeadV1 x) = put_signed_tree_head C x"
| "put_body C (ItemTreeHeadV1 x) = put_tree_head C x"
| "put_body C (ItemCosignedTreeHeadV1 x) = put_cosigned_tree_head C x"
| "put_body C (ItemSignatureV1 x) = put_signature C x"
| "put_body C (ItemInclusionProofV1 x) = put_inclusion_proof C x"
| "put_body C (ItemConsistencyProofV1 x) = put_consistency_proof C x"
| "put_body C (ItemSignedDebugInfoV1 x) = put_signed_debug_info C x"

fun get_body :: "codec \<Rightarrow> StFormat \<Rightarrow> bytes \<Rightarrow> (StItem \<times> bytes) option" where
  "get_body C StFormatChecksumV1 bs =
     do { (x, r) \<leftarrow> get_checksum C bs; Some (ItemChecksumV1 x, r) }"
| "get_body C StFormatSignedTreeHeadV1 bs =
     do { (x, r) \<leftarrow> get_signed_tree_head C bs; Some (ItemSignedTreeHeadV1 x, r) }"
| "get_body C StFormatTreeHeadV1 bs =
     do { (x, r) \<leftarrow> get_tree_head C bs; Some (ItemTreeHeadV1 x, r) }"
| "get_body C StFormatCosignedTreeHeadV1 bs =
     do { (x, r) \<leftarrow> get_cosigned_tree_head C bs; Some (ItemCosignedTreeHeadV1 x, r) }"
| "get_body C StFormatSignatureV1 bs =
     do { (x, r) \<leftarrow> get_signature C bs; Some (ItemSignatureV1 x, r) }"
| "get_body C StFormatInclusionProofV1 bs =
     do { (x, r) \<leftarrow> get_inclusion_proof C bs; Some (ItemInclusionProofV1 x, r) }"
| "get_body C StFormatConsistencyProofV1 bs =
     do { (x, r) \<leftarrow> get_consistency_proof C bs; Some (ItemConsistencyProofV1 x, r) }"
| "get_body C StFormatSignedDebugInfoV1 bs =
     do { (x, r) \<leftarrow> get_signed_debug_info C bs; Some (ItemSignedDebugInfoV1 x, r) }"

datatype codec_error = MalformedItem

definition Marshal :: "codec \<Rightarrow> StItem \<Rightarrow> bytes" where
  "Marshal C x = put_uint 2 (st_tag C (Format x)) @ put_body C x"

definition Unmarshal :: "codec \<Rightarrow> bytes \<Rightarrow> codec_error + StItem" where
  "Unmarshal C bs =
     (case get_uint 2 bs of
        None \<Rightarrow> Inl MalformedItem
      | Some (t, r) \<Rightarrow>
          (case find (\<lambda>f. st_tag C f = t) all_formats of
             None \<Rightarrow> Inl MalformedItem
           | Some f \<Rightarrow>
               (case get_body C f r of
                  None \<Rightarrow> Inl MalformedItem
                | Some (x, rest) \<Rightarrow> if rest = [] then Inr x else Inl MalformedItem)))"

text \<open>Modelled from the spec: a codec is well formed when its tags fit in two bytes and
  tell the formats apart.  An item is well formed when each field respects its declared
  size: a fixed field has its size, a variable field at most its maximum, and the
  encoding of a list at most the maximum of the list.\<close>

definition wf_codec :: "codec \<Rightarrow> bool" where
  "wf_codec C =
     (distinct (map (st_tag C) all_formats)
      \<and> list_all (\<lambda>f. st_tag C f < 65536) all_formats
      \<and> ns_tag C < 65536)"

fun wf_namespace :: "Namespace \<Rightarrow> bool" where
  "wf_namespace (NamespaceEd25519V1 a b) = (length a = 32 \<and> length b = 32)"

definition wf_tree_head :: "codec \<Rightarrow> TreeHeadV1 \<Rightarrow> bool" where
  "wf_tree_head C th =
     (length (root_hash th) \<le> max_node_hash C \<and> length (extensions th) \<le> max_extensions C)"

definition wf_signed_tree_head :: "codec \<Rightarrow> SignedTreeHeadV1 \<Rightarrow> bool" where
  "wf_signed_tree_head C s =
     (wf_tree_head C (tree_head s) \<and> length (sth_log_id s) \<le> max_log_id C
      \<and> length (sth_signature s) \<le> max_signature C)"

definition wf_signature :: "codec \<Rightarrow> SignatureV1 \<Rightarrow> bool" where
  "wf_signature C s =
     (wf_namespace (sig_namespace s) \<and> length (sig_signature s) \<le> max_signature C)"

definition wf_path :: "codec \<Rightarrow> bytes list \<Rightarrow> bool" where
  "wf_path C p =
     (list_all (\<lambda>h. length h \<le> max_node_hash C) p
      \<and> length (concat (map (put_opaque (max_node_hash C)) p)) \<le> max_path C)"

fun wf_item :: "codec \<Rightarrow> StItem \<Rightarrow> bool" where
  "wf_item C (ItemChecksumV1 x) =
     (length (package x) \<le> max_package \<and> length (checksum x) = 32
      \<and> wf_namespace (cs_namespace x))"
| "wf_item C (ItemSignedTreeHeadV1 x) = wf_signed_tree_head C x"
| "wf_item C (ItemTreeHeadV1 x) = wf_tree_head C x"
| "wf_item C (ItemCosignedTreeHeadV1 x) =
     (wf_signed_tree_head C (sth x) \<and> list_all (wf_signature C) (cosignatures x)
      \<and> length (concat (map (put_signature C) (cosignatures x))) \<le> max_cosignatures C)"
| "wf_item C (ItemSignatureV1 x) = wf_signature C x"
| "wf_item C (ItemInclusionProofV1 x) =
     (length (ip_log_id x) \<le> max_log_id C \<and> wf_path C (ip_path x))"
| "wf_item C (ItemConsistencyProofV1 x) =
     (length (cp_log_id x) \<le> max_log_id C \<and> wf_path C (cp_path x))"
| "wf_item C (ItemSignedDebugInfoV1 x) =
     (length (sdi_log_id x) \<le> max_log_id C \<and> length (sdi_message x) \<le> max_message C
      \<and> length (sdi_signature x) \<le> max_signature C)"

section \<open>Request parsing and response building (reqres.go)\<close>

subsection \<open>Errors and integers\<close>

text \<open>
  Errors are values.  The Go code returns \<open>fmt.Errorf\<close> strings; the model keeps one
  constructor for each place an error is made, so that every early return of the source
  is a branch of the model.
\<close>

datatype error =
    ErrSyntax
  | ErrRange
  | ReadBody error
  | ParseJson error
  | BadItem codec_error
  | InvalidFormat
  | InvalidChain error
  | InvalidSignature error
  | AppendixMarshal error
  | BadStart error
  | BadEnd error
  | StartNegative
  | StartAfterEnd
  | BadTreeSize error
  | TreeSizeNegative
  | BadHash error
  | BadFirst error
  | BadSecond error
  | FirstNotNatural
  | SecondNotLarger
  | NotOneCosignature
  | UntrustedWitness
  | StaleCosignature
  | Other string

text \<open>
  An \<open>int64\<close> is an integer in \<open>[-2^63, 2^63)\<close>; Go's arithmetic on it wraps around.
  \<open>wrap64\<close> is the value an exact result has after the wrap.
\<close>

definition MinInt64 :: int where
  "MinInt64 = - (2 ^ 63)"

definition MaxInt64 :: int where
  "MaxInt64 = 2 ^ 63 - 1"

definition is_int64 :: "int \<Rightarrow> bool" where
  "is_int64 x = (MinInt64 \<le> x \<and> x \<le> MaxInt64)"

definition wrap64 :: "int \<Rightarrow> int" where
  "wrap64 x = (x + 2 ^ 63) mod 2 ^ 64 - 2 ^ 63"

definition add64 :: "int \<Rightarrow> int \<Rightarrow> int" where
  "add64 a b = wrap64 (a + b)"

definition sub64 :: "int \<Rightarrow> int \<Rightarrow> int" where
  "sub64 a b = wrap64 (a - b)"

subsection \<open>strconv.ParseInt(s, 10, 64)\<close>

text \<open>
  The standard library's parser at base 10 and 64 bits: an optional sign, then one or
  more decimal digits and nothing else (underscores are accepted at base 0 only); a
  value outside \<open>int64\<close> is a range error.
\<close>

definition is_digit :: "char \<Rightarrow> bool" where
  "is_digit c = (of_char c \<ge> (48::nat) \<and> of_char c \<le> (57::nat))"

definition digit_val :: "char \<Rightarrow> nat" where
  "digit_val c = of_char c - 48"

fun parse_digits :: "nat \<Rightarrow> string \<Rightarrow> nat option" where
  "parse_digits n [] = Some n"
| "parse_digits n (c # cs) =
     (if is_digit c then parse_digits (10 * n + digit_val c) cs else None)"

definition ParseUint :: "string \<Rightarrow> error + nat" where
  "ParseUint s =
     (if s = [] then Inl ErrSyntax
      else (case parse_digits 0 s of
              None \<Rightarrow> Inl ErrSyntax
            | Some n \<Rightarrow> if n \<ge> 2 ^ 64 then Inl ErrRange else Inr n))"

definition ParseInt :: "string \<Rightarrow> error + int" where
  "ParseInt s =
     (case s of
        [] \<Rightarrow> Inl ErrSyntax
      | c # cs \<Rightarrow>
          (let neg = (c = CHR ''-'');
               t = (if c = CHR ''+'' \<or> c = CHR ''-'' then cs else s)
           in (case ParseUint t of
                 Inl e \<Rightarrow> Inl e
               | Inr un \<Rightarrow>
                   if \<not> neg \<and> un \<ge> 2 ^ 63 then Inl ErrRange
                   else if neg \<and> un > 2 ^ 63 then Inl ErrRange
                   else Inr (if neg then - int un else int un))))"

subsection \<open>HTTP requests and the request types\<close>

type_synonym http_method = string

definition MethodGet :: http_method where
  "MethodGet = ''GET''"

definition MethodPost :: http_method where
  "MethodPost = ''POST''"

text \<open>A request carries its method, its form parameters in the order they were given,
  and what reading its body gives.\<close>

record http_request =
  Method :: http_method
  Form :: "(string \<times> string) list"
  Body :: "error + bytes"

text \<open>\<open>FormValue\<close> gives the first value of the named parameter, the empty string when
  there is none.\<close>

definition FormValue :: "http_request \<Rightarrow> string \<Rightarrow> string" where
  "FormValue r k = (case map_of (Form r) k of None \<Rightarrow> [] | Some v \<Rightarrow> v)"

record AddEntryRequest =
  Item :: bytes
  Signature :: bytes
  SignatureScheme :: nat
  Chain :: "bytes list"

record GetEntriesRequest =
  Start :: int
  End :: int

record GetProofByHashRequest =
  Hash :: bytes
  TreeSize :: int

record GetConsistencyProofRequest =
  First :: int
  Second :: int

record GetEntryResponse =
  rsp_Leaf :: bytes
  rsp_Signature :: bytes
  rsp_Chain :: "bytes list"

text \<open>The part of \<open>LogParameters\<close> that is read here: the largest range of
  \<open>get-entries\<close>, and the accepted witness namespaces (the type is declared elsewhere;
  the witnesses are a set of namespaces in the spec).\<close>

record LogParameters =
  MaxRange :: int
  Witnesses :: "Namespace list"

subsection \<open>UnpackJsonPost\<close>

text \<open>\<open>json.Unmarshal\<close> is the standard library's; the decoder for the type that is
  unpacked is a parameter.\<close>

definition UnpackJsonPost :: "(bytes \<Rightarrow> error + 'a) \<Rightarrow> http_request \<Rightarrow> error + 'a" where
  "UnpackJsonPost json r =
     (case Body r of
        Inl err \<Rightarrow> Inl (ReadBody err)
      | Inr body \<Rightarrow>
          (case json body of
             Inl err \<Rightarrow> Inl (ParseJson err)
           | Inr unpack \<Rightarrow> Inr unpack))"

subsection \<open>NewAddEntryRequest\<close>

text \<open>
  The functions that \<open>NewAddEntryRequest\<close> calls and that are defined elsewhere are
  its environment: the JSON decoder, \<open>StItem.Unmarshal\<close>, \<open>buildChainFromDerList\<close>,
  \<open>verifySignature\<close> (which gives an error or none) and the marshalling of the
  appendix made by \<open>NewAppendix\<close>.  \<open>'cert\<close> is the type of X.509 certificates.
  The function reads \<open>chain[0]\<close> without a check; on an empty chain that is a panic
  and not an error, so the result is optional and \<open>None\<close> is the panic.
\<close>

record 'cert add_entry_env =
  json_AddEntryRequest :: "bytes \<Rightarrow> error + AddEntryRequest"
  item_Unmarshal :: "bytes \<Rightarrow> codec_error + StItem"
  buildChainFromDerList :: "LogParameters \<Rightarrow> bytes list \<Rightarrow> error + 'cert list"
  verifySignature :: "LogParameters \<Rightarrow> 'cert \<Rightarrow> nat \<Rightarrow> bytes \<Rightarrow> bytes \<Rightarrow> error option"
  NewAppendix_Marshal :: "'cert list \<Rightarrow> bytes \<Rightarrow> nat \<Rightarrow> error + bytes"

definition NewAddEntryRequest ::
  "'cert add_entry_env \<Rightarrow> LogParameters \<Rightarrow> http_request
   \<Rightarrow> (error + (bytes \<times> bytes)) option" where
  "NewAddEntryRequest E lp r =
     (case UnpackJsonPost (json_AddEntryRequest E) r of
        Inl err \<Rightarrow> Some (Inl err)
      | Inr entry \<Rightarrow>
     (case item_Unmarshal E (Item entry) of
        Inl err \<Rightarrow> Some (Inl (BadItem err))
      | Inr item \<Rightarrow>
          if Format item \<noteq> StFormatChecksumV1 then Some (Inl InvalidFormat)
          else
     (case buildChainFromDerList E lp (Chain entry) of
        Inl err \<Rightarrow> Some (Inl (InvalidChain err))
      | Inr chain \<Rightarrow>
     (case chain of
        [] \<Rightarrow> None
      | c0 # _ \<Rightarrow>
     (case verifySignature E lp c0 (SignatureScheme entry) (Item entry) (Signature entry) of
        Some err \<Rightarrow> Some (Inl (InvalidSignature err))
      | None \<Rightarrow>
     (case NewAppendix_Marshal E chain (Signature entry) (SignatureScheme entry) of
        Inl err \<Rightarrow> Some (Inl (AppendixMarshal err))
      | Inr extra \<Rightarrow> Some (Inr (Item entry, extra))))))))"

subsection \<open>NewGetEntriesRequest\<close>

definition NewGetEntriesRequest ::
  "LogParameters \<Rightarrow> http_request \<Rightarrow> error + GetEntriesRequest" where
  "NewGetEntriesRequest lp httpRequest =
     (case ParseInt (FormValue httpRequest ''start'') of
        Inl err \<Rightarrow> Inl (BadStart err)
      | Inr start \<Rightarrow>
     (case ParseInt (FormValue httpRequest ''end'') of
        Inl err \<Rightarrow> Inl (BadEnd err)
      | Inr end \<Rightarrow>
          if start < 0 then Inl StartNegative
          else if start > end then Inl StartAfterEnd
          else if add64 (sub64 end start) 1 > MaxRange lp
            then Inr \<lparr>Start = start, End = sub64 (add64 start (MaxRange lp)) 1\<rparr>
          else Inr \<lparr>Start = start, End = end\<rparr>))"

subsection \<open>NewGetProofByHashRequest\<close>

text \<open>\<open>deb64\<close> (base64 decoding) is defined elsewhere; it is a parameter.\<close>

definition NewGetProofByHashRequest ::
  "(string \<Rightarrow> error + bytes) \<Rightarrow> http_request \<Rightarrow> error + GetProofByHashRequest" where
  "NewGetProofByHashRequest deb64 httpRequest =
     (case ParseInt (FormValue httpRequest ''tree_size'') of
        Inl err \<Rightarrow> Inl (BadTreeSize err)
      | Inr treeSize \<Rightarrow>
          if treeSize < 0 then Inl TreeSizeNegative
          else (case deb64 (FormValue httpRequest ''hash'') of
                  Inl err \<Rightarrow> Inl (BadHash err)
                | Inr hash \<Rightarrow> Inr \<lparr>Hash = hash, TreeSize = treeSize\<rparr>))"

subsection \<open>NewGetConsistencyProofRequest\<close>

definition NewGetConsistencyProofRequest ::
  "http_request \<Rightarrow> error + GetConsistencyProofRequest" where
  "NewGetConsistencyProofRequest httpRequest =
     (case ParseInt (FormValue httpRequest ''first'') of
        Inl err \<Rightarrow> Inl (BadFirst err)
      | Inr first \<Rightarrow>
     (case ParseInt (FormValue httpRequest ''second'') of
        Inl err \<Rightarrow> Inl (BadSecond err)
      | Inr second \<Rightarrow>
          if first < 1 then Inl FirstNotNatural
          else if first \<ge> second then Inl SecondNotLarger
          else Inr \<lparr>First = first, Second = second\<rparr>))"

subsection \<open>NewGetEntryResponse and NewGetEntriesResponse\<close>

text \<open>
  An appendix holds a signature, its scheme and a chain of raw certificates.
  \<open>Appendix.Unmarshal\<close> is defined elsewhere and is a parameter.  A backend leaf is a
  pointer to a protobuf message that may be nil; its getters give the empty byte string
  then.
\<close>

record RawCertificate =
  Data :: bytes

record Appendix =
  app_Signature :: bytes
  app_SignatureScheme :: nat
  app_Chain :: "RawCertificate list"

record LogLeaf =
  LeafValue :: bytes
  ExtraData :: bytes

definition GetLeafValue :: "LogLeaf option \<Rightarrow> bytes" where
  "GetLeafValue leaf = (case leaf of None \<Rightarrow> [] | Some l \<Rightarrow> LeafValue l)"

definition GetExtraData :: "LogLeaf option \<Rightarrow> bytes" where
  "GetExtraData leaf = (case leaf of None \<Rightarrow> [] | Some l \<Rightarrow> ExtraData l)"

fun chain_loop :: "bytes list \<Rightarrow> RawCertificate list \<Rightarrow> bytes list" where
  "chain_loop chain [] = chain"
| "chain_loop chain (c # cs) = chain_loop (chain @ [Data c]) cs"

definition NewGetEntryResponse ::
  "(bytes \<Rightarrow> error + Appendix) \<Rightarrow> bytes \<Rightarrow> bytes \<Rightarrow> error + GetEntryResponse" where
  "NewGetEntryResponse app_Unmarshal leaf appendix =
     (case app_Unmarshal appendix of
        Inl err \<Rightarrow> Inl err
      | Inr app \<Rightarrow>
          Inr \<lparr>rsp_Leaf = leaf, rsp_Signature = app_Signature app,
               rsp_Chain = chain_loop [] (app_Chain app)\<rparr>)"

fun entries_loop ::
  "(bytes \<Rightarrow> error + Appendix) \<Rightarrow> GetEntryResponse list \<Rightarrow> LogLeaf option list
   \<Rightarrow> error + GetEntryResponse list" where
  "entries_loop app_Unmarshal entries [] = Inr entries"
| "entries_loop app_Unmarshal entries (leaf # leaves) =
     (case NewGetEntryResponse app_Unmarshal (GetLeafValue leaf) (GetExtraData leaf) of
        Inl err \<Rightarrow> Inl err
      | Inr entry \<Rightarrow> entries_loop app_Unmarshal (entries @ [entry]) leaves)"

definition NewGetEntriesResponse ::
  "(bytes \<Rightarrow> error + Appendix) \<Rightarrow> LogLeaf option list \<Rightarrow> error + GetEntryResponse list" where
  "NewGetEntriesResponse app_Unmarshal leaves = entries_loop app_Unmarshal [] leaves"

section \<open>Endpoint handlers and the HTTP mux\<close>

text \<open>
  Modelled from the spec: the \<open>Handler\<close> type with its \<open>ServeHTTP\<close> and the endpoint
  handler functions are not among the source files; only their tests are.  A handler
  is bound to an endpoint and to the method that is allowed for it.  Serving a request
  first compares the methods and answers 405 when they differ; otherwise the endpoint's
  function runs: it parses the request, answers 400 when parsing fails, and goes on with
  the parsed request otherwise.  An error body is the status text and a newline.  What follows the parsing
  (the call of the backend, the building and marshalling of the response) is a
  parameter of each handler function.  \<open>'s\<close> is the state that handlers may change.
  A handler whose parser panics writes no response.
\<close>

datatype Endpoint =
    EndpointAddEntry
  | EndpointAddCosignature
  | EndpointGetLatestSth
  | EndpointGetStableSth
  | EndpointGetCosignedSth
  | EndpointGetProofByHash
  | EndpointGetConsistencyProof
  | EndpointGetEntries
  | EndpointGetAnchors

fun endpoint_method :: "Endpoint \<Rightarrow> http_method" where
  "endpoint_method EndpointAddEntry = MethodPost"
| "endpoint_method EndpointAddCosignature = MethodPost"
| "endpoint_method EndpointGetLatestSth = MethodGet"
| "endpoint_method EndpointGetStableSth = MethodGet"
| "endpoint_method EndpointGetCosignedSth = MethodGet"
| "endpoint_method EndpointGetProofByHash = MethodGet"
| "endpoint_method EndpointGetConsistencyProof = MethodGet"
| "endpoint_method EndpointGetEntries = MethodGet"
| "endpoint_method EndpointGetAnchors = MethodGet"

record http_response =
  Code :: nat
  Text :: string

definition StatusOK :: nat where
  "StatusOK = 200"

definition StatusBadRequest :: nat where
  "StatusBadRequest = 400"

definition StatusMethodNotAllowed :: nat where
  "StatusMethodNotAllowed = 405"

definition StatusInternalServerError :: nat where
  "StatusInternalServerError = 500"

definition StatusText :: "nat \<Rightarrow> string" where
  "StatusText code =
     (if code = 200 then ''OK''
      else if code = 400 then ''Bad Request''
      else if code = 405 then ''Method Not Allowed''
      else if code = 500 then ''Internal Server Error''
      else [])"

definition sendHTTPError :: "nat \<Rightarrow> http_response" where
  "sendHTTPError code = \<lparr>Code = code, Text = StatusText code @ [CHR 0x0A]\<rparr>"

record 's Handler =
  handler :: "'s \<Rightarrow> http_request \<Rightarrow> http_response \<times> 's"
  endpoint :: Endpoint
  allowed :: http_method

definition ServeHTTP :: "'s Handler \<Rightarrow> 's \<Rightarrow> http_request \<Rightarrow> http_response \<times> 's" where
  "ServeHTTP a st r =
     (if Method r \<noteq> allowed a then (sendHTTPError StatusMethodNotAllowed, st)
      else handler a st r)"

text \<open>Modelled from the spec: the mux binds each endpoint to its function under the
  endpoint's method, as the table of the HTTP surface gives it.\<close>

definition register ::
  "(Endpoint \<Rightarrow> 's \<Rightarrow> http_request \<Rightarrow> http_response \<times> 's) \<Rightarrow> Endpoint \<Rightarrow> 's Handler" where
  "register fs ep = \<lparr>handler = fs ep, endpoint = ep, allowed = endpoint_method ep\<rparr>"

text \<open>Modelled from the spec: a handler function parses the request, answers 400 when
  the parser returns an error, and goes on otherwise.\<close>

definition addEntry ::
  "'cert add_entry_env \<Rightarrow> LogParameters \<Rightarrow> (bytes \<times> bytes \<Rightarrow> 's \<Rightarrow> http_response \<times> 's)
   \<Rightarrow> 's \<Rightarrow> http_request \<Rightarrow> (http_response \<times> 's) option" where
  "addEntry E lp rest st r =
     (case NewAddEntryRequest E lp r of
        None \<Rightarrow> None
      | Some (Inl err) \<Rightarrow> Some (sendHTTPError StatusBadRequest, st)
      | Some (Inr req) \<Rightarrow> Some (rest req st))"

definition getEntries ::
  "LogParameters \<Rightarrow> (GetEntriesRequest \<Rightarrow> 's \<Rightarrow> http_response \<times> 's)
   \<Rightarrow> 's \<Rightarrow> http_request \<Rightarrow> http_response \<times> 's" where
  "getEntries lp rest st r =
     (case NewGetEntriesRequest lp r of
        Inl err \<Rightarrow> (sendHTTPError StatusBadRequest, st)
      | Inr req \<Rightarrow> rest req st)"

definition getProofByHash ::
  "(string \<Rightarrow> error + bytes) \<Rightarrow> (GetProofByHashRequest \<Rightarrow> 's \<Rightarrow> http_response \<times> 's)
   \<Rightarrow> 's \<Rightarrow> http_request \<Rightarrow> http_response \<times> 's" where
  "getProofByHash deb64 rest st r =
     (case NewGetProofByHashRequest deb64 r of
        Inl err \<Rightarrow> (sendHTTPError StatusBadRequest, st)
      | Inr req \<Rightarrow> rest req st)"

definition getConsistencyProof ::
  "(GetConsistencyProofRequest \<Rightarrow> 's \<Rightarrow> http_response \<times> 's)
   \<Rightarrow> 's \<Rightarrow> http_request \<Rightarrow> http_response \<times> 's" where
  "getConsistencyProof rest st r =
     (case NewGetConsistencyProofRequest r of
        Inl err \<Rightarrow> (sendHTTPError StatusBadRequest, st)
      | Inr req \<Rightarrow> rest req st)"

section \<open>The STH source: cosigning state\<close>

text \<open>
  Modelled from the spec: the STH source and the \<open>add-cosignature\<close> parser and handler
  are not among the source files; only their tests are.  The source holds the cosigned
  tree head that is served, the next candidate, which collects cosignatures, and the
  set of witnesses that have cosigned the candidate.  A namespace is identified by its
  serialization, so the set holds serialized namespaces, and membership in the log's
  witnesses compares serializations.  Checking a signature under a namespace is a
  parameter.
\<close>

text \<open>Modelled from the spec: the state of the STH source and the request of
  \<open>add-cosignature\<close>, whose body is a serialized cosigned tree head with exactly one
  cosignature.\<close>

record ActiveSthSource =
  currCosth :: CosignedTreeHeadV1
  nextCosth :: CosignedTreeHeadV1
  cosignatureFrom :: "bytes set"

record AddCosignatureRequest =
  Costh :: bytes

definition NewAddCosignatureRequest ::
  "codec \<Rightarrow> (bytes \<Rightarrow> error + AddCosignatureRequest) \<Rightarrow> http_request
   \<Rightarrow> error + (SignedTreeHeadV1 \<times> SignatureV1)" where
  "NewAddCosignatureRequest C json r =
     (case UnpackJsonPost json r of
        Inl err \<Rightarrow> Inl err
      | Inr req \<Rightarrow>
          (case Unmarshal C (Costh req) of
             Inl err \<Rightarrow> Inl (BadItem err)
           | Inr item \<Rightarrow>
               (case item of
                  ItemCosignedTreeHeadV1 costh \<Rightarrow>
                    (case cosignatures costh of
                       [s] \<Rightarrow> Inr (sth costh, s)
                     | _ \<Rightarrow> Inl NotOneCosignature)
                | _ \<Rightarrow> Inl InvalidFormat)))"

text \<open>Modelled from the spec: the steps of the add-cosignature protocol, in their order:
  the witness must be one of the log's, the submitted tree head must be the candidate
  byte for byte, the signature must verify under the witness's namespace over the
  marshalled tree head; a witness that has cosigned already changes nothing, any other
  one has its cosignature appended and is added to the set.\<close>

definition is_witness :: "codec \<Rightarrow> LogParameters \<Rightarrow> Namespace \<Rightarrow> bool" where
  "is_witness C lp ns = (put_namespace C ns \<in> set (map (put_namespace C) (Witnesses lp)))"

definition same_sth :: "codec \<Rightarrow> SignedTreeHeadV1 \<Rightarrow> SignedTreeHeadV1 \<Rightarrow> bool" where
  "same_sth C a b = (Marshal C (ItemSignedTreeHeadV1 a) = Marshal C (ItemSignedTreeHeadV1 b))"

definition AddCosignature ::
  "codec \<Rightarrow> (Namespace \<Rightarrow> bytes \<Rightarrow> bytes \<Rightarrow> bool) \<Rightarrow> LogParameters \<Rightarrow> ActiveSthSource
   \<Rightarrow> SignedTreeHeadV1 \<Rightarrow> SignatureV1 \<Rightarrow> error + ActiveSthSource" where
  "AddCosignature C verify lp src submittedSth s =
     (let witnessNs = sig_namespace s in
      if \<not> is_witness C lp witnessNs then Inl UntrustedWitness
      else if \<not> same_sth C submittedSth (sth (nextCosth src)) then Inl StaleCosignature
      else if \<not> verify witnessNs (Marshal C (ItemSignedTreeHeadV1 submittedSth)) (sig_signature s)
        then Inl (InvalidSignature (Other ''witness''))
      else if put_namespace C witnessNs \<in> cosignatureFrom src then Inr src
      else Inr (src\<lparr>nextCosth :=
                       (nextCosth src)\<lparr>cosignatures := cosignatures (nextCosth src) @ [s]\<rparr>,
                     cosignatureFrom := insert (put_namespace C witnessNs) (cosignatureFrom src)\<rparr>))"

text \<open>Modelled from the spec: the handler answers 400 to a request that does not parse or
  that the STH source rejects, and 200 with an empty body otherwise.\<close>

definition addCosi ::
  "codec \<Rightarrow> (bytes \<Rightarrow> error + AddCosignatureRequest) \<Rightarrow> (Namespace \<Rightarrow> bytes \<Rightarrow> bytes \<Rightarrow> bool)
   \<Rightarrow> LogParameters \<Rightarrow> ActiveSthSource \<Rightarrow> http_request \<Rightarrow> http_response \<times> ActiveSthSource" where
  "addCosi C json verify lp src r =
     (case NewAddCosignatureRequest C json r of
        Inl err \<Rightarrow> (sendHTTPError StatusBadRequest, src)
      | Inr (submittedSth, s) \<Rightarrow>
          (case AddCosignature C verify lp src submittedSth s of
             Inl err \<Rightarrow> (sendHTTPError StatusBadRequest, src)
           | Inr src' \<Rightarrow> (\<lparr>Code = StatusOK, Text = []\<rparr>, src')))"

text \<open>Modelled from the spec: a rotation promotes the candidate with the cosignatures it
  has collected, and starts a new candidate from a fresh signed tree head; when no fresh
  tree head can be had, the rotation is skipped.\<close>

definition rotate_source :: "error + SignedTreeHeadV1 \<Rightarrow> ActiveSthSource \<Rightarrow> ActiveSthSource" where
  "rotate_source fresh src =
     (case fresh of
        Inl err \<Rightarrow> src
      | Inr freshSth \<Rightarrow>
          \<lparr>currCosth = \<lparr>sth = sth (nextCosth src), cosignatures = cosignatures (nextCosth src)\<rparr>,
           nextCosth = \<lparr>sth = freshSth, cosignatures = []\<rparr>,
           cosignatureFrom = {}\<rparr>)"

text \<open>
  An epoch is what happens between two rotations: a sequence of \<open>add-cosignature\<close>
  requests, each served in the state the one before has left.  \<open>cosignatures_of\<close> are
  the cosignatures a witness, known by its serialized namespace, has in the candidate.
  The invariant of an epoch is that a witness has one cosignature there if it is in the
  set of those seen, and none otherwise.
\<close>

fun addCosi_all ::
  "codec \<Rightarrow> (bytes \<Rightarrow> error + AddCosignatureRequest) \<Rightarrow> (Namespace \<Rightarrow> bytes \<Rightarrow> bytes \<Rightarrow> bool)
   \<Rightarrow> LogParameters \<Rightarrow> ActiveSthSource \<Rightarrow> http_request list \<Rightarrow> ActiveSthSource" where
  "addCosi_all C json verify lp src [] = src"
| "addCosi_all C json verify lp src (r # rs) =
     addCosi_all C json verify lp (snd (addCosi C json verify lp src r)) rs"

definition cosignatures_of :: "codec \<Rightarrow> bytes \<Rightarrow> ActiveSthSource \<Rightarrow> SignatureV1 list" where
  "cosignatures_of C w src =
     filter (\<lambda>s. put_namespace C (sig_namespace s) = w) (cosignatures (nextCosth src))"

definition one_each :: "codec \<Rightarrow> ActiveSthSource \<Rightarrow> bool" where
  "one_each C src =
     (\<forall>w. length (cosignatures_of C w src) = (if w \<in> cosignatureFrom src then 1 else 0))"

section \<open>Collecting cosignatures from witnesses (internal/witness/witness.go)\<close>

subsection \<open>Data\<close>

text \<open>
  The types of the \<open>sigsum-go\<close> packages are kept as far as the collector reads them:
  a signed tree head has a size, a checkpoint wraps a signed tree head, and an error of
  the witness API either is a conflict that carries the size the witness has, or is not.
  Consistency proofs, the signature lines a witness returns and cosignatures are type
  parameters.
\<close>

record SignedTreeHead =
  Size :: u64
  RootHash :: bytes
  LogSignature :: bytes

record Checkpoint =
  cp_SignedTreeHead :: SignedTreeHead
  cp_Origin :: string
  cp_KeyId :: bytes

record ConsistencyProofRequest =
  OldSize :: u64
  NewSize :: u64

record 'proof AddCheckpointRequest =
  ac_OldSize :: u64
  ac_Proof :: 'proof
  ac_Checkpoint :: Checkpoint

datatype api_error = Conflict u64 | Failure string

fun ErrorConflictOldSize :: "api_error \<Rightarrow> u64 option" where
  "ErrorConflictOldSize (Conflict oldSize) = Some oldSize"
| "ErrorConflictOldSize (Failure _) = None"

text \<open>
  A call that leaves the process (the witness's \<open>AddCheckpoint\<close>, the caller's
  \<open>getConsistencyProof\<close>, written \<open>gcp\<close> below) may answer differently each time it
  is made.  Its model takes the number of the attempt within one \<open>getCosignature\<close>, and
  \<open>getConsistencyProof\<close> also the index of the witness it is called for.
\<close>

type_synonym 'proof GetConsistencyProofFunc =
  "nat \<Rightarrow> nat \<Rightarrow> ConsistencyProofRequest \<Rightarrow> api_error + 'proof"

record ('proof, 'sigs) witness =
  client :: "nat \<Rightarrow> 'proof AddCheckpointRequest \<Rightarrow> api_error + 'sigs"
  publicKey :: bytes
  keyHash :: bytes
  prevSize :: u64

record 'cs cosignatureItem =
  ci_keyHash :: bytes
  ci_cs :: 'cs

record Entity =
  PublicKey :: bytes
  URL :: string

text \<open>The library functions the file calls.\<close>

record ('proof, 'sigs, 'cs) witness_env =
  HashBytes :: "bytes \<Rightarrow> bytes"
  client_New :: "string \<Rightarrow> nat \<Rightarrow> 'proof AddCheckpointRequest \<Rightarrow> api_error + 'sigs"
  SigsumCheckpointOrigin :: "bytes \<Rightarrow> string"
  NewLogKeyId :: "string \<Rightarrow> bytes \<Rightarrow> bytes"
  VerifyCosignatureByKey :: "Checkpoint \<Rightarrow> 'sigs \<Rightarrow> bytes \<Rightarrow> api_error + 'cs"

record ('proof, 'sigs) CosignatureCollector =
  origin :: string
  keyId :: bytes
  cc_getConsistencyProof :: "'proof GetConsistencyProofFunc"
  witnesses :: "('proof, 'sigs) witness list"

subsection \<open>newWitness and NewCosignatureCollector\<close>

definition newWitness :: "('proof, 'sigs, 'cs) witness_env \<Rightarrow> Entity \<Rightarrow> ('proof, 'sigs) witness" where
  "newWitness E w =
     \<lparr>client = client_New E (URL w),
      publicKey = PublicKey w,
      keyHash = HashBytes E (PublicKey w),
      prevSize = 0\<rparr>"

definition NewCosignatureCollector ::
  "('proof, 'sigs, 'cs) witness_env \<Rightarrow> bytes \<Rightarrow> Entity list \<Rightarrow> 'proof GetConsistencyProofFunc
   \<Rightarrow> ('proof, 'sigs) CosignatureCollector" where
  "NewCosignatureCollector E logPublicKey ws gcp =
     (let origin = SigsumCheckpointOrigin E logPublicKey in
      \<lparr>origin = origin,
       keyId = NewLogKeyId E origin logPublicKey,
       cc_getConsistencyProof = gcp,
       witnesses = foldl (\<lambda>acc w. acc @ [newWitness E w]) [] ws\<rparr>)"

subsection \<open>getCosignature\<close>

text \<open>
  The loop of \<open>getCosignature\<close> has no bound on its attempts: it goes round again
  whenever the witness answers with a conflict.  It is a partial function; \<open>None\<close>
  means that it does not return.  When it returns, it gives the result (an error or the
  item) and the witness with its \<open>prevSize\<close> as the loop left it.
\<close>

partial_function (option) getCosignature_loop ::
  "('proof, 'sigs, 'cs) witness_env \<Rightarrow> 'proof GetConsistencyProofFunc \<Rightarrow> nat \<Rightarrow> Checkpoint
   \<Rightarrow> nat \<Rightarrow> ('proof, 'sigs) witness
   \<Rightarrow> ((api_error + 'cs cosignatureItem) \<times> ('proof, 'sigs) witness) option" where
  "getCosignature_loop E gcp i cp k w =
     (case gcp i k
             \<lparr>OldSize = prevSize w, NewSize = Size (cp_SignedTreeHead cp)\<rparr> of
        Inl err \<Rightarrow> Some (Inl err, w)
      | Inr proof \<Rightarrow>
          (case client w k \<lparr>ac_OldSize = prevSize w, ac_Proof = proof, ac_Checkpoint = cp\<rparr> of
             Inr signatures \<Rightarrow>
               (case VerifyCosignatureByKey E cp signatures (publicKey w) of
                  Inl err \<Rightarrow> Some (Inl err, w)
                | Inr cs \<Rightarrow>
                    Some (Inr \<lparr>ci_keyHash = keyHash w, ci_cs = cs\<rparr>,
                          w\<lparr>prevSize := Size (cp_SignedTreeHead cp)\<rparr>))
           | Inl err \<Rightarrow>
               (case ErrorConflictOldSize err of
                  Some oldSize \<Rightarrow>
                    getCosignature_loop E gcp i cp (Suc k) (w\<lparr>prevSize := oldSize\<rparr>)
                | None \<Rightarrow> Some (Inl err, w))))"

definition getCosignature ::
  "('proof, 'sigs, 'cs) witness_env \<Rightarrow> 'proof GetConsistencyProofFunc \<Rightarrow> nat \<Rightarrow> Checkpoint
   \<Rightarrow> ('proof, 'sigs) witness
   \<Rightarrow> ((api_error + 'cs cosignatureItem) \<times> ('proof, 'sigs) witness) option" where
  "getCosignature E gcp i cp w = getCosignature_loop E gcp i cp 0 w"

subsection \<open>GetCosignatures\<close>

text \<open>
  One goroutine for each witness runs \<open>getCosignature\<close>; each changes its own witness
  only.  A goroutine that has an item sends it on the channel, one that has an error
  logs it and sends nothing.  The channel is closed when all goroutines are done, so
  the collection returns only if every \<open>getCosignature\<close> returns.  The items arrive in
  the order in which the goroutines send them: the schedule \<open>sched\<close> lists the witness
  indices in that order.
\<close>

fun run_witnesses ::
  "('proof, 'sigs, 'cs) witness_env \<Rightarrow> 'proof GetConsistencyProofFunc \<Rightarrow> Checkpoint \<Rightarrow> nat
   \<Rightarrow> ('proof, 'sigs) witness list
   \<Rightarrow> ((api_error + 'cs cosignatureItem) \<times> ('proof, 'sigs) witness) list option" where
  "run_witnesses E g cp i [] = Some []"
| "run_witnesses E g cp i (w # ws) =
     (case getCosignature E g i cp w of
        None \<Rightarrow> None
      | Some r \<Rightarrow>
          (case run_witnesses E g cp (Suc i) ws of
             None \<Rightarrow> None
           | Some rs \<Rightarrow> Some (r # rs)))"

fun sent_items ::
  "((api_error + 'cs cosignatureItem) \<times> 'w) list \<Rightarrow> nat list \<Rightarrow> 'cs cosignatureItem list" where
  "sent_items rs [] = []"
| "sent_items rs (i # sched) =
     (if i < length rs
      then (case fst (rs ! i) of
              Inl err \<Rightarrow> sent_items rs sched
            | Inr item \<Rightarrow> item # sent_items rs sched)
      else sent_items rs sched)"

fun receive_loop :: "(bytes \<rightharpoonup> 'cs) \<Rightarrow> 'cs cosignatureItem list \<Rightarrow> (bytes \<rightharpoonup> 'cs)" where
  "receive_loop m [] = m"
| "receive_loop m (i # items) = receive_loop (m(ci_keyHash i \<mapsto> ci_cs i)) items"

definition GetCosignatures ::
  "('proof, 'sigs, 'cs) witness_env \<Rightarrow> nat list \<Rightarrow> ('proof, 'sigs) CosignatureCollector
   \<Rightarrow> SignedTreeHead
   \<Rightarrow> ((bytes \<rightharpoonup> 'cs) \<times> ('proof, 'sigs) CosignatureCollector) option" where
  "GetCosignatures E sched c head =
     (let cp = \<lparr>cp_SignedTreeHead = head, cp_Origin = origin c, cp_KeyId = keyId c\<rparr> in
      case run_witnesses E (cc_getConsistencyProof c) cp 0 (witnesses c) of
        None \<Rightarrow> None
      | Some rs \<Rightarrow>
          Some (receive_loop Map.empty (sent_items rs sched), c\<lparr>witnesses := map snd rs\<rparr>))"

text \<open>A schedule is fair to \<open>n\<close> goroutines when each of them has its turn once.\<close>

definition is_schedule :: "nat \<Rightarrow> nat list \<Rightarrow> bool" where
  "is_schedule n sched = (distinct sched \<and> set sched = {0..<n})"

section \<open>Values for the examples\<close>

text \<open>A codec with the tags 1 to 8 in the order of the data model, and small maxima.\<close>

fun test_tag :: "StFormat \<Rightarrow> nat" where
  "test_tag StFormatChecksumV1 = 1"
| "test_tag StFormatSignedTreeHeadV1 = 2"
| "test_tag StFormatTreeHeadV1 = 3"
| "test_tag StFormatCosignedTreeHeadV1 = 4"
| "test_tag StFormatSignatureV1 = 5"
| "test_tag StFormatInclusionProofV1 = 6"
| "test_tag StFormatConsistencyProofV1 = 7"
| "test_tag StFormatSignedDebugInfoV1 = 8"

definition test_codec :: codec where
  "test_codec =
     \<lparr>st_tag = test_tag, ns_tag = 1, max_log_id = 255, max_signature = 65535,
      max_extensions = 65535, max_message = 65535, max_node_hash = 255, max_path = 65535,
      max_cosignatures = 4294967295\<rparr>"

definition test_namespace :: "byte \<Rightarrow> Namespace" where
  "test_namespace b = NamespaceEd25519V1 (replicate 32 b) (replicate 32 b)"

definition test_checksum :: StItem where
  "test_checksum =
     ItemChecksumV1 \<lparr>package = [0x66, 0x6f, 0x6f], checksum = replicate 32 0,
                     cs_namespace = test_namespace 1\<rparr>"

text \<open>
  A stand-in for signatures: the signature of a message under a key is the key followed
  by the message.  A namespace verifies with its public key.
\<close>

definition toy_verify :: "bytes \<Rightarrow> bytes \<Rightarrow> bytes \<Rightarrow> bool" where
  "toy_verify key msg sg = (sg = key @ msg)"

definition test_ns_verify :: "Namespace \<Rightarrow> bytes \<Rightarrow> bytes \<Rightarrow> bool" where
  "test_ns_verify ns msg sg = toy_verify (ns_public_key ns) msg sg"

definition test_sth :: SignedTreeHeadV1 where
  "test_sth =
     \<lparr>tree_head = \<lparr>timestamp = 1, tree_size = 2, root_hash = replicate 32 0, extensions = []\<rparr>,
      sth_log_id = [7], sth_signature = replicate 32 0\<rparr>"

definition test_cosignature :: "byte \<Rightarrow> SignatureV1" where
  "test_cosignature b =
     \<lparr>sig_namespace = test_namespace b,
      sig_signature = replicate 32 b @ Marshal test_codec (ItemSignedTreeHeadV1 test_sth)\<rparr>"

definition test_costh :: "byte \<Rightarrow> StItem" where
  "test_costh b = ItemCosignedTreeHeadV1 \<lparr>sth = test_sth, cosignatures = [test_cosignature b]\<rparr>"

definition test_json_costh :: "bytes \<Rightarrow> error + AddCosignatureRequest" where
  "test_json_costh body = Inr \<lparr>Costh = body\<rparr>"

definition test_cosi_request :: "byte \<Rightarrow> http_request" where
  "test_cosi_request b =
     \<lparr>Method = MethodPost, Form = [], Body = Inr (Marshal test_codec (test_costh b))\<rparr>"

definition test_lp :: LogParameters where
  "test_lp = \<lparr>MaxRange = 10, Witnesses = [test_namespace 1]\<rparr>"

definition test_source :: ActiveSthSource where
  "test_source =
     \<lparr>currCosth = \<lparr>sth = test_sth, cosignatures = []\<rparr>,
      nextCosth = \<lparr>sth = test_sth, cosignatures = []\<rparr>,
      cosignatureFrom = {}\<rparr>"

definition test_source_1 :: ActiveSthSource where
  "test_source_1 =
     \<lparr>currCosth = \<lparr>sth = test_sth, cosignatures = []\<rparr>,
      nextCosth = \<lparr>sth = test_sth, cosignatures = [test_cosignature 1]\<rparr>,
      cosignatureFrom = {put_namespace test_codec (test_namespace 1)}\<rparr>"

text \<open>
  An environment for \<open>NewAddEntryRequest\<close>: a certificate is its public key, a chain is
  the list of the certificates it is given and must not be empty, and the JSON decoder
  knows one body, that of a request whose item is the example leaf, signed with the key
  of the certificate in its chain.
\<close>

definition test_leaf :: bytes where
  "test_leaf = Marshal test_codec test_checksum"

definition test_cert :: bytes where
  "test_cert = replicate 32 9"

definition test_entry :: AddEntryRequest where
  "test_entry =
     \<lparr>Item = test_leaf, Signature = test_cert @ test_leaf, SignatureScheme = 2055,
      Chain = [test_cert]\<rparr>"

definition test_entry_body :: bytes where
  "test_entry_body = [0x7b, 0x7d]"

definition test_add_entry_env :: "bytes add_entry_env" where
  "test_add_entry_env =
     \<lparr>json_AddEntryRequest =
        (\<lambda>body. if body = test_entry_body then Inr test_entry else Inl (Other ''json'')),
      item_Unmarshal = Unmarshal test_codec,
      buildChainFromDerList =
        (\<lambda>lp ders. if ders = [] then Inl (Other ''empty chain'') else Inr ders),
      verifySignature =
        (\<lambda>lp cert scheme msg sg.
           if toy_verify cert msg sg then None else Some (Other ''bad signature'')),
      NewAppendix_Marshal = (\<lambda>chain sg scheme. Inr (concat chain @ sg))\<rparr>"

definition test_add_entry_request :: "bytes \<Rightarrow> http_request" where
  "test_add_entry_request body = \<lparr>Method = MethodPost, Form = [], Body = Inr body\<rparr>"

definition test_ok :: "'q \<Rightarrow> unit \<Rightarrow> http_response \<times> unit" where
  "test_ok q u = (\<lparr>Code = 200, Text = []\<rparr>, u)"

text \<open>An appendix decoder that fails on the empty input.\<close>

definition test_app_Unmarshal :: "bytes \<Rightarrow> error + Appendix" where
  "test_app_Unmarshal b =
     (if b = [] then Inl (Other ''short'')
      else Inr \<lparr>app_Signature = b, app_SignatureScheme = 2055, app_Chain = [\<lparr>Data = b\<rparr>]\<rparr>)"

text \<open>
  An environment for the collector: the hash of a key is the key after a zero byte, a
  witness is known by its URL (the good one returns its key as its signature lines, the
  busy one always answers with a conflict, any other one fails), and a cosignature
  verifies when it is the key.
\<close>

definition test_witness_env :: "(unit, bytes, bytes) witness_env" where
  "test_witness_env =
     \<lparr>HashBytes = (\<lambda>b. 0 # b),
      client_New =
        (\<lambda>url k req.
           if url = ''good'' then Inr [1]
           else if url = ''busy'' then Inl (Conflict 0)
           else Inl (Failure ''down'')),
      SigsumCheckpointOrigin = (\<lambda>pk. ''sigsum.org/v1/tree''),
      NewLogKeyId = (\<lambda>origin pk. [0, 0, 0, 0]),
      VerifyCosignatureByKey =
        (\<lambda>cp sigs pk. if sigs = pk then Inr sigs else Inl (Failure ''invalid''))\<rparr>"

definition test_gcp :: "unit GetConsistencyProofFunc" where
  "test_gcp i k req = Inr ()"

definition test_head :: SignedTreeHead where
  "test_head = \<lparr>Size = 5, RootHash = replicate 32 0, LogSignature = replicate 64 0\<rparr>"

definition test_collector :: "Entity list \<Rightarrow> (unit, bytes) CosignatureCollector" where
  "test_collector ws = NewCosignatureCollector test_witness_env [0] ws test_gcp"

definition test_cp :: Checkpoint where
  "test_cp =
     \<lparr>cp_SignedTreeHead = test_head, cp_Origin = ''sigsum.org/v1/tree'',
      cp_KeyId = [0, 0, 0, 0]\<rparr>"

definition good_witness :: Entity where
  "good_witness = \<lparr>PublicKey = [1], URL = ''good''\<rparr>"

definition down_witness :: Entity where
  "down_witness = \<lparr>PublicKey = [2], URL = ''down''\<rparr>"

definition busy_witness :: Entity where
  "busy_witness = \<lparr>PublicKey = [3], URL = ''busy''\<rparr>"

section \<open>The codec is symmetrical\<close>

subsection \<open>Integers and fields\<close>

lemma be_to_nat_snoc: "be_to_nat (xs @ [b]) = 256 * be_to_nat xs + unat b"
  by (simp add: be_to_nat_def)

lemma length_nat_to_be: "length (nat_to_be w n) = w"
  by (induction w arbitrary: n) auto

lemma unat_byte_of_nat: "unat (of_nat (n mod 256) :: byte) = n mod 256"
  by (simp add: unat_of_nat)

lemma be_to_nat_nat_to_be: "n < 256 ^ w \<Longrightarrow> be_to_nat (nat_to_be w n) = n"
proof (induction w arbitrary: n)
  case 0
  then show ?case by (simp add: be_to_nat_def)
next
  case (Suc w)
  from Suc.prems have "n div 256 < 256 ^ w"
    by (simp add: less_mult_imp_div_less mult.commute)
  then have "be_to_nat (nat_to_be w (n div 256)) = n div 256"
    by (rule Suc.IH)
  then show ?case
    by (simp add: be_to_nat_snoc unat_byte_of_nat)
qed

lemma len_width_small: "m < 256 \<Longrightarrow> len_width m = 1"
  by (subst len_width.simps) simp

lemma len_width_large: "\<not> m < 256 \<Longrightarrow> len_width m = Suc (len_width (m div 256))"
  by (subst len_width.simps) simp

lemma len_width_bound: "m < 256 ^ len_width m"
proof (induction m rule: len_width.induct)
  case (1 m)
  show ?case
  proof (cases "m < 256")
    case True
    then show ?thesis by (simp add: len_width_small)
  next
    case False
    with 1 have "m div 256 < 256 ^ len_width (m div 256)" by simp
    then have "m < 256 * 256 ^ len_width (m div 256)"
      by (metis div_less_iff_less_mult mult.commute zero_less_numeral)
    with False show ?thesis by (simp add: len_width_large)
  qed
qed

lemma get_fixed_append: "length xs = n \<Longrightarrow> get_fixed n (xs @ r) = Some (xs, r)"
  by (simp add: get_fixed_def)

lemma get_uint_put: "n < 256 ^ w \<Longrightarrow> get_uint w (put_uint w n @ r) = Some (n, r)"
  by (simp add: get_uint_def put_uint_def get_fixed_append length_nat_to_be be_to_nat_nat_to_be)

lemma get_u64_put: "get_u64 (put_u64 x @ r) = Some (x, r)"
proof -
  have "unat x < 256 ^ 8"
    using unsigned_less [of x, where ?'a = nat] by simp
  then show ?thesis
    by (simp add: get_u64_def put_u64_def get_uint_put)
qed

lemma get_opaque_put:
  assumes "length xs \<le> mx"
  shows "get_opaque mx (put_opaque mx xs @ r) = Some (xs, r)"
proof -
  have "length xs < 256 ^ len_width mx"
    using assms len_width_bound [of mx] by linarith
  then show ?thesis
    by (simp add: get_opaque_def put_opaque_def get_uint_put get_fixed_append)
qed

lemma get_many_concat:
  assumes "\<And>x r. x \<in> set xs \<Longrightarrow> dec (enc x @ r) = Some (x, r)"
    and "\<And>x. x \<in> set xs \<Longrightarrow> enc x \<noteq> []"
  shows "get_many dec (concat (map enc xs)) = Some xs"
  using assms
proof (induction xs)
  case Nil
  then show ?case by simp
next
  case (Cons x xs)
  have ne: "enc x \<noteq> []" by (simp add: Cons.prems(2))
  have d: "dec (enc x @ concat (map enc xs)) = Some (x, concat (map enc xs))"
    by (simp add: Cons.prems(1))
  have ih: "get_many dec (concat (map enc xs)) = Some xs"
    by (rule Cons.IH) (simp_all add: Cons.prems)
  show ?case
    using ne d ih by (subst get_many.simps) simp
qed

lemma get_list_put:
  assumes "\<And>x r. x \<in> set xs \<Longrightarrow> dec (enc x @ r) = Some (x, r)"
    and "\<And>x. x \<in> set xs \<Longrightarrow> enc x \<noteq> []"
    and "length (concat (map enc xs)) \<le> mx"
  shows "get_list mx dec (put_list mx enc xs @ r) = Some (xs, r)"
  using assms
  by (simp add: get_list_def put_list_def get_opaque_put get_many_concat del: get_many.simps)

subsection \<open>Structures\<close>

lemma put_opaque_nonempty: "put_opaque mx xs \<noteq> []"
proof -
  have "length (put_uint (len_width mx) (length xs)) = len_width mx"
    by (simp add: put_uint_def length_nat_to_be)
  moreover have "0 < len_width mx"
    by (cases "mx < 256") (simp_all add: len_width_small len_width_large)
  ultimately show ?thesis
    by (auto simp: put_opaque_def)
qed

lemma get_namespace_put:
  assumes "ns_tag C < 65536" and "wf_namespace ns"
  shows "get_namespace C (put_namespace C ns @ r) = Some (ns, r)"
proof (cases ns)
  case (NamespaceEd25519V1 a b)
  with assms(2) have "length a = 32" "length b = 32" by simp_all
  moreover have "ns_tag C < 256 ^ 2" using assms(1) by simp
  ultimately show ?thesis
    using NamespaceEd25519V1
    by (simp add: get_namespace_def put_namespace_def get_uint_put get_fixed_append)
qed

lemma put_namespace_nonempty: "put_namespace C ns \<noteq> []"
proof -
  have "2 \<le> length (put_namespace C ns)"
    by (simp add: put_namespace_def put_uint_def length_nat_to_be)
  then show ?thesis by auto
qed

lemma get_tree_head_put:
  "wf_tree_head C th \<Longrightarrow> get_tree_head C (put_tree_head C th @ r) = Some (th, r)"
  by (simp add: get_tree_head_def put_tree_head_def wf_tree_head_def get_u64_put get_opaque_put)

lemma get_signed_tree_head_put:
  "wf_signed_tree_head C s \<Longrightarrow>
   get_signed_tree_head C (put_signed_tree_head C s @ r) = Some (s, r)"
  by (simp add: get_signed_tree_head_def put_signed_tree_head_def wf_signed_tree_head_def
      get_tree_head_put get_opaque_put)

lemma get_signature_put:
  "ns_tag C < 65536 \<Longrightarrow> wf_signature C s \<Longrightarrow>
   get_signature C (put_signature C s @ r) = Some (s, r)"
  by (simp add: get_signature_def put_signature_def wf_signature_def
      get_namespace_put get_opaque_put)

lemma put_signature_nonempty: "put_signature C s \<noteq> []"
  by (simp add: put_signature_def put_namespace_nonempty)

lemma get_cosigned_tree_head_put:
  assumes "ns_tag C < 65536" and "wf_signed_tree_head C (sth c)"
    and "list_all (wf_signature C) (cosignatures c)"
    and "length (concat (map (put_signature C) (cosignatures c))) \<le> max_cosignatures C"
  shows "get_cosigned_tree_head C (put_cosigned_tree_head C c @ r) = Some (c, r)"
proof -
  have "get_list (max_cosignatures C) (get_signature C)
          (put_list (max_cosignatures C) (put_signature C) (cosignatures c) @ r)
        = Some (cosignatures c, r)"
    using assms(1,3,4)
    by (intro get_list_put) (simp_all add: get_signature_put put_signature_nonempty list_all_iff)
  then show ?thesis
    using assms(2)
    by (simp add: get_cosigned_tree_head_def put_cosigned_tree_head_def get_signed_tree_head_put)
qed

lemma get_checksum_put:
  assumes "ns_tag C < 65536" and "length (package c) \<le> max_package"
    and "length (checksum c) = 32" and "wf_namespace (cs_namespace c)"
  shows "get_checksum C (put_checksum C c @ r) = Some (c, r)"
  using assms
  by (simp add: get_checksum_def put_checksum_def get_opaque_put get_fixed_append
      get_namespace_put)

lemma get_path_put:
  assumes "wf_path C p"
  shows "get_list (max_path C) (get_opaque (max_node_hash C))
           (put_list (max_path C) (put_opaque (max_node_hash C)) p @ r) = Some (p, r)"
  using assms
  by (intro get_list_put) (simp_all add: wf_path_def get_opaque_put put_opaque_nonempty list_all_iff)

lemma get_inclusion_proof_put:
  assumes "length (ip_log_id p) \<le> max_log_id C" and "wf_path C (ip_path p)"
  shows "get_inclusion_proof C (put_inclusion_proof C p @ r) = Some (p, r)"
  using assms
  by (simp add: get_inclusion_proof_def put_inclusion_proof_def get_opaque_put get_u64_put
      get_path_put)

lemma get_consistency_proof_put:
  assumes "length (cp_log_id p) \<le> max_log_id C" and "wf_path C (cp_path p)"
  shows "get_consistency_proof C (put_consistency_proof C p @ r) = Some (p, r)"
  using assms
  by (simp add: get_consistency_proof_def put_consistency_proof_def get_opaque_put get_u64_put
      get_path_put)

lemma get_signed_debug_info_put:
  assumes "length (sdi_log_id d) \<le> max_log_id C" and "length (sdi_message d) \<le> max_message C"
    and "length (sdi_signature d) \<le> max_signature C"
  shows "get_signed_debug_info C (put_signed_debug_info C d @ r) = Some (d, r)"
  using assms
  by (simp add: get_signed_debug_info_def put_signed_debug_info_def get_opaque_put)

lemma get_body_put:
  assumes "ns_tag C < 65536" and "wf_item C x"
  shows "get_body C (Format x) (put_body C x @ r) = Some (x, r)"
  using assms
  by (cases x)
    (simp_all add: get_checksum_put get_signed_tree_head_put get_tree_head_put
      get_cosigned_tree_head_put get_signature_put get_inclusion_proof_put
      get_consistency_proof_put get_signed_debug_info_put)

lemma find_tag:
  assumes "distinct (map tg fs)" and "f \<in> set fs"
  shows "find (\<lambda>g. tg g = tg f) fs = Some f"
  using assms
  by (induction fs) (auto simp: image_iff)

lemma Format_in_all_formats: "f \<in> set all_formats"
  by (cases f) (simp_all add: all_formats_def)


lemma Unmarshal_put:
  assumes "wf_codec C" and "wf_item C x"
  shows "Unmarshal C (put_uint 2 (st_tag C (Format x)) @ put_body C x) = Inr x"
proof -
  from assms(1) have d: "distinct (map (st_tag C) all_formats)"
    and n: "ns_tag C < 65536"
    and t: "st_tag C (Format x) < 256 ^ 2"
    using Format_in_all_formats [of "Format x"]
    by (simp_all add: wf_codec_def list_all_iff)
  have f: "find (\<lambda>g. st_tag C g = st_tag C (Format x)) all_formats = Some (Format x)"
    using d Format_in_all_formats by (rule find_tag)
  have b: "get_body C (Format x) (put_body C x) = Some (x, [])"
    using get_body_put [OF n assms(2), of "[]"] by simp
  show ?thesis
    by (simp add: Unmarshal_def get_uint_put [OF t] f b)
qed


text \<open>
  C1.  For every well-formed item \<open>x\<close>, of every variant, decoding the encoding of \<open>x\<close>
  gives \<open>x\<close> again: \<open>Unmarshal (Marshal x) = x\<close>.
\<close>

theorem Unmarshal_Marshal:
  assumes "wf_codec C" and "wf_item C x"
  shows "Unmarshal C (Marshal C x) = Inr x"
  unfolding Marshal_def using assms by (rule Unmarshal_put)

theorem Unmarshal_Marshal_witness:
  "wf_codec test_codec \<and> wf_item test_codec test_checksum
   \<and> Unmarshal test_codec (Marshal test_codec test_checksum) = Inr test_checksum"
proof -
  have c: "wf_codec test_codec"
    by (simp add: wf_codec_def test_codec_def all_formats_def)
  have i: "wf_item test_codec test_checksum"
    by (simp add: test_checksum_def test_namespace_def max_package_def)
  show ?thesis
    using c i Unmarshal_Marshal [OF c i] by simp
qed

subsection \<open>The example values are well formed\<close>

lemma length_put_uint: "length (put_uint w n) = w"
  by (simp add: put_uint_def length_nat_to_be)

lemma length_put_opaque: "length (put_opaque mx xs) = len_width mx + length xs"
  by (simp add: put_opaque_def length_put_uint)

lemma length_put_namespace:
  "length (put_namespace C ns) = 2 + length (ns_namespace ns) + length (ns_public_key ns)"
  by (simp add: put_namespace_def length_put_uint)

lemma wf_test_codec: "wf_codec test_codec"
  by (simp add: wf_codec_def test_codec_def all_formats_def)

lemma wf_test_sth: "wf_signed_tree_head test_codec test_sth"
  by (simp add: wf_signed_tree_head_def wf_tree_head_def test_sth_def test_codec_def)

lemma length_Marshal_test_sth: "length (Marshal test_codec (ItemSignedTreeHeadV1 test_sth)) = 89"
  by (simp add: Marshal_def put_signed_tree_head_def put_tree_head_def put_u64_def
      length_put_uint length_put_opaque test_sth_def test_codec_def len_width_small
      len_width_large)

lemma wf_test_cosignature: "wf_signature test_codec (test_cosignature b)"
  by (simp add: wf_signature_def test_cosignature_def test_namespace_def
      length_Marshal_test_sth) (simp add: test_codec_def)

lemma wf_test_costh: "wf_item test_codec (test_costh b)"
  using wf_test_cosignature [of b]
  by (simp add: test_costh_def wf_test_sth put_signature_def length_put_namespace
      length_put_opaque wf_signature_def)
    (simp add: test_codec_def test_cosignature_def test_namespace_def length_Marshal_test_sth
      len_width_small len_width_large)

lemma NewAddCosignatureRequest_test:
  "NewAddCosignatureRequest test_codec test_json_costh (test_cosi_request b)
   = Inr (test_sth, test_cosignature b)"
proof -
  have u: "Unmarshal test_codec (Marshal test_codec (test_costh b)) = Inr (test_costh b)"
    by (simp add: Marshal_def Unmarshal_put wf_test_codec wf_test_costh)
  show ?thesis
    by (simp add: NewAddCosignatureRequest_def UnpackJsonPost_def test_cosi_request_def
        test_json_costh_def u) (simp add: test_costh_def)
qed

lemma put_test_namespace_eq:
  "put_namespace test_codec (test_namespace a) = put_namespace test_codec (test_namespace b)
   \<longleftrightarrow> a = b"
  by (simp add: put_namespace_def test_namespace_def)

section \<open>Properties of the request parsers\<close>

lemma ParseInt_0: "ParseInt ''0'' = Inr 0"
  by (simp add: ParseInt_def ParseUint_def is_digit_def digit_val_def)

lemma ParseInt_1: "ParseInt ''1'' = Inr 1"
  by (simp add: ParseInt_def ParseUint_def is_digit_def digit_val_def)

lemma ParseInt_2: "ParseInt ''2'' = Inr 2"
  by (simp add: ParseInt_def ParseUint_def is_digit_def digit_val_def)

lemma ParseInt_MaxInt64: "ParseInt ''9223372036854775807'' = Inr 9223372036854775807"
  by (simp add: ParseInt_def ParseUint_def is_digit_def digit_val_def)

lemma ParseInt_int64: "ParseInt s = Inr n \<Longrightarrow> is_int64 n"
  by (auto simp: ParseInt_def ParseUint_def Let_def is_int64_def MinInt64_def MaxInt64_def
      split: list.splits sum.splits option.splits if_splits)

lemma wrap64_int64: "is_int64 x \<Longrightarrow> wrap64 x = x"
  by (simp add: wrap64_def is_int64_def MinInt64_def MaxInt64_def)

lemma NewGetProofByHashRequest_iff:
  "NewGetProofByHashRequest deb64 r = Inr q \<longleftrightarrow>
     ParseInt (FormValue r ''tree_size'') = Inr (TreeSize q) \<and> 0 \<le> TreeSize q
     \<and> deb64 (FormValue r ''hash'') = Inr (Hash q)"
  by (auto simp: NewGetProofByHashRequest_def split: sum.splits)

text \<open>
  C4.  A \<open>get-proof-by-hash\<close> request must have a tree size of at least 1, and the parser
  is to reject a tree size of 0.  The parser compares with 0 where the claim and the
  handler's test need 1: at \<open>tree_size=0\<close> with a hash that decodes, it returns the
  request, so that the handler goes on to the backend instead of answering 400.
\<close>

theorem NewGetProofByHashRequest_accepts_zero:
  "NewGetProofByHashRequest deb64
     \<lparr>Method = MethodGet, Form = [(''hash'', s), (''tree_size'', ''0'')], Body = Inr []\<rparr>
   = (case deb64 s of
        Inl err \<Rightarrow> Inl (BadHash err)
      | Inr h \<Rightarrow> Inr \<lparr>Hash = h, TreeSize = 0\<rparr>)
   \<and> getProofByHash deb64 rest st
       \<lparr>Method = MethodGet, Form = [(''hash'', s), (''tree_size'', ''0'')], Body = Inr []\<rparr>
     = (case deb64 s of
          Inl err \<Rightarrow> (sendHTTPError 400, st)
        | Inr h \<Rightarrow> rest \<lparr>Hash = h, TreeSize = 0\<rparr> st)"
  by (simp add: getProofByHash_def NewGetProofByHashRequest_def FormValue_def ParseInt_0
      StatusBadRequest_def split: sum.splits)

text \<open>
  What \<open>NewGetEntriesRequest\<close> does everywhere else: it returns a range only for
  \<open>0 \<le> start \<le> end\<close> and keeps the start; and when the length of the range fits in
  \<open>int64\<close> and \<open>MaxRange\<close> is positive, it truncates a range that is too long.
\<close>

lemma NewGetEntriesRequest_ok_D:
  assumes "NewGetEntriesRequest lp r = Inr q"
  shows "\<exists>e. ParseInt (FormValue r ''start'') = Inr (Start q)
           \<and> ParseInt (FormValue r ''end'') = Inr e \<and> 0 \<le> Start q \<and> Start q \<le> e"
  using assms
  by (auto simp: NewGetEntriesRequest_def split: sum.splits if_splits)

lemma NewGetEntriesRequest_truncates:
  assumes s: "ParseInt (FormValue r ''start'') = Inr s"
    and e: "ParseInt (FormValue r ''end'') = Inr e"
    and range: "0 \<le> s" "s \<le> e"
    and not_all: "e - s < MaxInt64"
    and mr: "0 < MaxRange lp" "MaxRange lp \<le> MaxInt64"
  shows "NewGetEntriesRequest lp r
         = Inr \<lparr>Start = s, End = (if e - s + 1 > MaxRange lp then s + MaxRange lp - 1 else e)\<rparr>"
proof -
  from s e have is1: "is_int64 s" and ie: "is_int64 e"
    by (simp_all add: ParseInt_int64)
  with range have "is_int64 (e - s)"
    by (simp add: is_int64_def MinInt64_def MaxInt64_def)
  then have d: "sub64 e s = e - s"
    by (simp add: sub64_def wrap64_int64)
  from range not_all have "is_int64 (e - s + 1)"
    by (simp add: is_int64_def MinInt64_def MaxInt64_def)
  then have l: "add64 (sub64 e s) 1 = e - s + 1"
    by (simp add: add64_def d wrap64_int64)
  show ?thesis
  proof (cases "e - s + 1 > MaxRange lp")
    case False
    with s e range l show ?thesis
      by (simp add: NewGetEntriesRequest_def)
  next
    case True
    with range mr ie have "is_int64 (s + MaxRange lp)" and "is_int64 (s + MaxRange lp - 1)"
      by (simp_all add: is_int64_def MinInt64_def MaxInt64_def)
    then have "sub64 (add64 s (MaxRange lp)) 1 = s + MaxRange lp - 1"
      by (simp add: add64_def sub64_def wrap64_int64)
    with True s e range l show ?thesis
      by (simp add: NewGetEntriesRequest_def)
  qed
qed

text \<open>
  C5.  A range of more than \<open>MaxRange\<close> entries is to be truncated.  The length of the
  range is computed in \<open>int64\<close>, and \<open>end - start + 1\<close> wraps around to the least
  \<open>int64\<close> for the range from 0 to the greatest \<open>int64\<close>: this range, the largest there
  is, comes back as it was given, whatever \<open>MaxRange\<close> is.
\<close>

theorem NewGetEntriesRequest_overflow:
  assumes "is_int64 (MaxRange lp)"
  shows "NewGetEntriesRequest lp
           \<lparr>Method = MethodGet,
              Form = [(''start'', ''0''), (''end'', ''9223372036854775807'')], Body = Inr []\<rparr>
         = Inr \<lparr>Start = 0, End = 9223372036854775807\<rparr>
       \<and> getEntries lp rest st
           \<lparr>Method = MethodGet,
              Form = [(''start'', ''0''), (''end'', ''9223372036854775807'')], Body = Inr []\<rparr>
         = rest \<lparr>Start = 0, End = 9223372036854775807\<rparr> st"
proof -
  have "NewGetEntriesRequest lp
           \<lparr>Method = MethodGet,
              Form = [(''start'', ''0''), (''end'', ''9223372036854775807'')], Body = Inr []\<rparr>
         = Inr \<lparr>Start = 0, End = 9223372036854775807\<rparr>"
    using assms
    by (simp add: NewGetEntriesRequest_def FormValue_def ParseInt_MaxInt64 ParseInt_0 add64_def
        sub64_def wrap64_def is_int64_def MinInt64_def)
  then show ?thesis
    by (simp add: getEntries_def)
qed

theorem NewGetEntriesRequest_overflow_witness:
  "is_int64 (MaxRange \<lparr>MaxRange = 10, Witnesses = []\<rparr>)
   \<and> NewGetEntriesRequest \<lparr>MaxRange = 10, Witnesses = []\<rparr>
         \<lparr>Method = MethodGet,
            Form = [(''start'', ''0''), (''end'', ''9223372036854775807'')], Body = Inr []\<rparr>
       = Inr \<lparr>Start = 0, End = 9223372036854775807\<rparr>"
proof -
  have h: "is_int64 (MaxRange \<lparr>MaxRange = 10, Witnesses = []\<rparr>)"
    by (simp add: is_int64_def MinInt64_def MaxInt64_def)
  show ?thesis
    using h NewGetEntriesRequest_overflow [OF h, of "\<lambda>q u. (\<lparr>Code = 200, Text = []\<rparr>, u)" "()"]
    by simp
qed

text \<open>
  C6.  \<open>NewGetConsistencyProofRequest\<close> returns a request exactly when both parameters
  parse and \<open>1 \<le> first < second\<close>, and the request it returns holds the parsed values.
  When the parameters parse and \<open>first < 1\<close> or \<open>first \<ge> second\<close>, it returns an error,
  and the handler answers 400 and leaves the state as it was.
\<close>

theorem NewGetConsistencyProofRequest_iff:
  "(NewGetConsistencyProofRequest r = Inr q \<longleftrightarrow>
      ParseInt (FormValue r ''first'') = Inr (First q)
      \<and> ParseInt (FormValue r ''second'') = Inr (Second q)
      \<and> 1 \<le> First q \<and> First q < Second q)
   \<and> (ParseInt (FormValue r ''first'') = Inr f \<and> ParseInt (FormValue r ''second'') = Inr s
        \<and> (f < 1 \<or> s \<le> f) \<longrightarrow>
      (\<exists>err. NewGetConsistencyProofRequest r = Inl err)
      \<and> getConsistencyProof rest st r = (sendHTTPError 400, st))"
  by (auto simp: NewGetConsistencyProofRequest_def getConsistencyProof_def StatusBadRequest_def
      split: sum.splits)

theorem NewGetConsistencyProofRequest_iff_witness:
  "NewGetConsistencyProofRequest
     \<lparr>Method = MethodGet, Form = [(''first'', ''1''), (''second'', ''2'')], Body = Inr []\<rparr>
   = Inr \<lparr>First = 1, Second = 2\<rparr>
   \<and> (\<exists>err. NewGetConsistencyProofRequest
              \<lparr>Method = MethodGet, Form = [(''first'', ''2''), (''second'', ''1'')], Body = Inr []\<rparr>
            = Inl err)
   \<and> getConsistencyProof (\<lambda>q u. (\<lparr>Code = 200, Text = []\<rparr>, u)) ()
         \<lparr>Method = MethodGet, Form = [(''first'', ''2''), (''second'', ''1'')], Body = Inr []\<rparr>
       = (sendHTTPError 400, ())"
  using NewGetConsistencyProofRequest_iff
    [of "\<lparr>Method = MethodGet, Form = [(''first'', ''1''), (''second'', ''2'')], Body = Inr []\<rparr>"
        "\<lparr>First = 1, Second = 2\<rparr>" 2 1 "\<lambda>q u. (\<lparr>Code = 200, Text = []\<rparr>, u)" "()"]
    NewGetConsistencyProofRequest_iff
    [of "\<lparr>Method = MethodGet, Form = [(''first'', ''2''), (''second'', ''1'')], Body = Inr []\<rparr>"
        "\<lparr>First = 1, Second = 2\<rparr>" 2 1 "\<lambda>q u. (\<lparr>Code = 200, Text = []\<rparr>, u)" "()"]
  by (simp add: FormValue_def ParseInt_1 ParseInt_2)

section \<open>Properties of the response builder\<close>

lemma chain_loop_append: "chain_loop chain cs = chain @ map Data cs"
  by (induction cs arbitrary: chain) auto

lemma NewGetEntryResponse_ok:
  "app_Unmarshal appendix = Inr app \<Longrightarrow>
   NewGetEntryResponse app_Unmarshal leaf appendix
   = Inr \<lparr>rsp_Leaf = leaf, rsp_Signature = app_Signature app, rsp_Chain = map Data (app_Chain app)\<rparr>"
  by (simp add: NewGetEntryResponse_def chain_loop_append)

lemma NewGetEntryResponse_error:
  "app_Unmarshal appendix = Inl err \<Longrightarrow> NewGetEntryResponse app_Unmarshal leaf appendix = Inl err"
  by (simp add: NewGetEntryResponse_def)

lemma entries_loop_ok:
  assumes "list_all2 (\<lambda>l a. app_Unmarshal (GetExtraData l) = Inr a) leaves apps"
  shows "entries_loop app_Unmarshal entries leaves
         = Inr (entries @ map2 (\<lambda>l a. \<lparr>rsp_Leaf = GetLeafValue l, rsp_Signature = app_Signature a,
                                        rsp_Chain = map Data (app_Chain a)\<rparr>) leaves apps)"
  using assms
proof (induction leaves apps arbitrary: entries rule: list_all2_induct)
  case Nil
  then show ?case by simp
next
  case (Cons l a leaves apps)
  then show ?case
    by (simp add: NewGetEntryResponse_ok)
qed

lemma entries_loop_error:
  assumes "l \<in> set leaves" and "app_Unmarshal (GetExtraData l) = Inl err"
  shows "\<exists>e. entries_loop app_Unmarshal entries leaves = Inl e"
  using assms
proof (induction leaves arbitrary: entries)
  case Nil
  then show ?case by simp
next
  case (Cons x leaves)
  show ?case
  proof (cases "app_Unmarshal (GetExtraData x)")
    case (Inl e)
    then show ?thesis by (simp add: NewGetEntryResponse_error)
  next
    case (Inr app)
    with Cons.prems have "l \<in> set leaves" by auto
    then obtain e where "entries_loop app_Unmarshal
        (entries @ [\<lparr>rsp_Leaf = GetLeafValue x, rsp_Signature = app_Signature app,
                      rsp_Chain = map Data (app_Chain app)\<rparr>]) leaves = Inl e"
      using Cons.IH Cons.prems(2) by blast
    with Inr show ?thesis by (simp add: NewGetEntryResponse_ok)
  qed
qed

text \<open>
  C9.  \<open>NewGetEntriesResponse\<close> is all or nothing.  When the extra data of every leaf
  unmarshals as an appendix, it returns one entry for each leaf, in the order of the
  leaves, each with the leaf's value unchanged, the appendix's signature and the data of
  the appendix's certificates.  When the extra data of some leaf does not unmarshal, it
  returns an error and no entries.
\<close>

theorem NewGetEntriesResponse_all_or_nothing:
  "(list_all2 (\<lambda>l a. app_Unmarshal (GetExtraData l) = Inr a) leaves apps \<longrightarrow>
      NewGetEntriesResponse app_Unmarshal leaves
      = Inr (map2 (\<lambda>l a. \<lparr>rsp_Leaf = GetLeafValue l, rsp_Signature = app_Signature a,
                             rsp_Chain = map Data (app_Chain a)\<rparr>) leaves apps)
      \<and> length (map2 (\<lambda>l a. \<lparr>rsp_Leaf = GetLeafValue l, rsp_Signature = app_Signature a,
                             rsp_Chain = map Data (app_Chain a)\<rparr>) leaves apps) = length leaves)
   \<and> ((\<exists>l \<in> set leaves. \<exists>err. app_Unmarshal (GetExtraData l) = Inl err) \<longrightarrow>
      (\<exists>err. NewGetEntriesResponse app_Unmarshal leaves = Inl err))"
proof (intro conjI impI)
  assume a: "list_all2 (\<lambda>l a. app_Unmarshal (GetExtraData l) = Inr a) leaves apps"
  then show "NewGetEntriesResponse app_Unmarshal leaves
      = Inr (map2 (\<lambda>l a. \<lparr>rsp_Leaf = GetLeafValue l, rsp_Signature = app_Signature a,
                             rsp_Chain = map Data (app_Chain a)\<rparr>) leaves apps)"
    by (simp add: NewGetEntriesResponse_def entries_loop_ok)
  from a have "length leaves = length apps" by (rule list_all2_lengthD)
  then show "length (map2 (\<lambda>l a. \<lparr>rsp_Leaf = GetLeafValue l, rsp_Signature = app_Signature a,
                             rsp_Chain = map Data (app_Chain a)\<rparr>) leaves apps) = length leaves"
    by simp
next
  assume "\<exists>l \<in> set leaves. \<exists>err. app_Unmarshal (GetExtraData l) = Inl err"
  then show "\<exists>err. NewGetEntriesResponse app_Unmarshal leaves = Inl err"
    unfolding NewGetEntriesResponse_def by (blast dest: entries_loop_error)
qed

theorem NewGetEntriesResponse_all_or_nothing_witness:
  "NewGetEntriesResponse test_app_Unmarshal
     [Some \<lparr>LeafValue = [1], ExtraData = [2]\<rparr>, Some \<lparr>LeafValue = [3], ExtraData = [4]\<rparr>]
   = Inr [\<lparr>rsp_Leaf = [1], rsp_Signature = [2], rsp_Chain = [[2]]\<rparr>,
          \<lparr>rsp_Leaf = [3], rsp_Signature = [4], rsp_Chain = [[4]]\<rparr>]
   \<and> (\<exists>err. NewGetEntriesResponse test_app_Unmarshal
               [Some \<lparr>LeafValue = [1], ExtraData = [2]\<rparr>, None] = Inl err)"
  using NewGetEntriesResponse_all_or_nothing
    [of test_app_Unmarshal
        "[Some \<lparr>LeafValue = [1], ExtraData = [2]\<rparr>, Some \<lparr>LeafValue = [3], ExtraData = [4]\<rparr>]"
        "[\<lparr>app_Signature = [2], app_SignatureScheme = 2055, app_Chain = [\<lparr>Data = [2]\<rparr>]\<rparr>,
          \<lparr>app_Signature = [4], app_SignatureScheme = 2055, app_Chain = [\<lparr>Data = [4]\<rparr>]\<rparr>]"]
    NewGetEntriesResponse_all_or_nothing
    [of test_app_Unmarshal "[Some \<lparr>LeafValue = [1], ExtraData = [2]\<rparr>, None]" "[]"]
  by (simp add: test_app_Unmarshal_def GetExtraData_def GetLeafValue_def)

section \<open>Properties of NewAddEntryRequest\<close>

lemma wf_test_checksum: "wf_item test_codec test_checksum"
  by (simp add: test_checksum_def test_namespace_def max_package_def)

lemma Unmarshal_test_leaf: "Unmarshal test_codec test_leaf = Inr test_checksum"
  by (simp add: test_leaf_def Marshal_def Unmarshal_put wf_test_codec wf_test_checksum)

lemma UnpackJsonPost_test_entry:
  "UnpackJsonPost (json_AddEntryRequest test_add_entry_env) (test_add_entry_request test_entry_body)
   = Inr test_entry"
  by (simp add: UnpackJsonPost_def test_add_entry_env_def test_add_entry_request_def)

lemma UnpackJsonPost_test_empty:
  "UnpackJsonPost (json_AddEntryRequest test_add_entry_env) (test_add_entry_request [])
   = Inl (ParseJson (Other ''json''))"
  by (simp add: UnpackJsonPost_def test_add_entry_env_def test_add_entry_request_def
      test_entry_body_def)

lemma Format_ChecksumV1: "Format item = StFormatChecksumV1 \<longleftrightarrow> (\<exists>c. item = ItemChecksumV1 c)"
  by (cases item) simp_all

text \<open>
  C2, as the code has it.  \<open>NewAddEntryRequest\<close> returns the item and the marshalled
  appendix exactly when the body unpacks, the item decodes as a \<open>ChecksumV1\<close>,
  \<open>buildChainFromDerList\<close> returns a chain with a first certificate, the signature over
  the item verifies under that first certificate with the request's signature scheme, and
  the appendix marshals.  Each check that fails gives an error: a body that does not
  unpack, an item that does not decode, a format other than \<open>ChecksumV1\<close>, an error of
  \<open>buildChainFromDerList\<close>, a signature that does not verify under the first certificate,
  an appendix that does not marshal.  When \<open>NewAddEntryRequest\<close> returns an error, the
  handler answers 400 and leaves the state as it was.  The one remaining outcome, neither
  a result nor an error, occurs exactly when \<open>buildChainFromDerList\<close> returns an empty chain
  without an error for a request that passed the checks before it: the code then reads
  \<open>chain[0]\<close>.
\<close>

theorem NewAddEntryRequest_iff:
  "(NewAddEntryRequest E lp r = Some (Inr res) \<longleftrightarrow>
      (\<exists>entry c c0 cs extra.
          UnpackJsonPost (json_AddEntryRequest E) r = Inr entry
        \<and> item_Unmarshal E (Item entry) = Inr (ItemChecksumV1 c)
        \<and> buildChainFromDerList E lp (Chain entry) = Inr (c0 # cs)
        \<and> verifySignature E lp c0 (SignatureScheme entry) (Item entry) (Signature entry) = None
        \<and> NewAppendix_Marshal E (c0 # cs) (Signature entry) (SignatureScheme entry) = Inr extra
        \<and> res = (Item entry, extra)))
   \<and> ((\<exists>err. NewAddEntryRequest E lp r = Some (Inl err)) \<longrightarrow>
        addEntry E lp rest st r = Some (sendHTTPError 400, st))
   \<and> (UnpackJsonPost (json_AddEntryRequest E) r = Inl e_body \<longrightarrow>
        NewAddEntryRequest E lp r = Some (Inl e_body)
        \<and> addEntry E lp rest st r = Some (sendHTTPError 400, st))
   \<and> (UnpackJsonPost (json_AddEntryRequest E) r = Inr ent
        \<and> item_Unmarshal E (Item ent) = Inl e_item \<longrightarrow>
        NewAddEntryRequest E lp r = Some (Inl (BadItem e_item))
        \<and> addEntry E lp rest st r = Some (sendHTTPError 400, st))
   \<and> (UnpackJsonPost (json_AddEntryRequest E) r = Inr ent
        \<and> item_Unmarshal E (Item ent) = Inr item
        \<and> Format item \<noteq> StFormatChecksumV1 \<longrightarrow>
        NewAddEntryRequest E lp r = Some (Inl InvalidFormat)
        \<and> addEntry E lp rest st r = Some (sendHTTPError 400, st))
   \<and> (UnpackJsonPost (json_AddEntryRequest E) r = Inr ent
        \<and> item_Unmarshal E (Item ent) = Inr item
        \<and> Format item = StFormatChecksumV1
        \<and> buildChainFromDerList E lp (Chain ent) = Inl e_chain \<longrightarrow>
        NewAddEntryRequest E lp r = Some (Inl (InvalidChain e_chain))
        \<and> addEntry E lp rest st r = Some (sendHTTPError 400, st))
   \<and> (UnpackJsonPost (json_AddEntryRequest E) r = Inr ent
        \<and> item_Unmarshal E (Item ent) = Inr item
        \<and> Format item = StFormatChecksumV1
        \<and> buildChainFromDerList E lp (Chain ent) = Inr (crt # crts)
        \<and> verifySignature E lp crt (SignatureScheme ent) (Item ent) (Signature ent)
            = Some e_sig \<longrightarrow>
        NewAddEntryRequest E lp r = Some (Inl (InvalidSignature e_sig))
        \<and> addEntry E lp rest st r = Some (sendHTTPError 400, st))
   \<and> (UnpackJsonPost (json_AddEntryRequest E) r = Inr ent
        \<and> item_Unmarshal E (Item ent) = Inr item
        \<and> Format item = StFormatChecksumV1
        \<and> buildChainFromDerList E lp (Chain ent) = Inr (crt # crts)
        \<and> verifySignature E lp crt (SignatureScheme ent) (Item ent) (Signature ent) = None
        \<and> NewAppendix_Marshal E (crt # crts) (Signature ent) (SignatureScheme ent)
            = Inl e_app \<longrightarrow>
        NewAddEntryRequest E lp r = Some (Inl (AppendixMarshal e_app))
        \<and> addEntry E lp rest st r = Some (sendHTTPError 400, st))
   \<and> (NewAddEntryRequest E lp r = None \<longleftrightarrow>
        (\<exists>entry c.
            UnpackJsonPost (json_AddEntryRequest E) r = Inr entry
          \<and> item_Unmarshal E (Item entry) = Inr (ItemChecksumV1 c)
          \<and> buildChainFromDerList E lp (Chain entry) = Inr []))"
proof -
  have ok: "NewAddEntryRequest E lp r = Some (Inr res) \<longleftrightarrow>
      (\<exists>entry c c0 cs extra.
          UnpackJsonPost (json_AddEntryRequest E) r = Inr entry
        \<and> item_Unmarshal E (Item entry) = Inr (ItemChecksumV1 c)
        \<and> buildChainFromDerList E lp (Chain entry) = Inr (c0 # cs)
        \<and> verifySignature E lp c0 (SignatureScheme entry) (Item entry) (Signature entry) = None
        \<and> NewAppendix_Marshal E (c0 # cs) (Signature entry) (SignatureScheme entry) = Inr extra
        \<and> res = (Item entry, extra))"
  proof
    assume "NewAddEntryRequest E lp r = Some (Inr res)"
    then show "\<exists>entry c c0 cs extra.
          UnpackJsonPost (json_AddEntryRequest E) r = Inr entry
        \<and> item_Unmarshal E (Item entry) = Inr (ItemChecksumV1 c)
        \<and> buildChainFromDerList E lp (Chain entry) = Inr (c0 # cs)
        \<and> verifySignature E lp c0 (SignatureScheme entry) (Item entry) (Signature entry) = None
        \<and> NewAppendix_Marshal E (c0 # cs) (Signature entry) (SignatureScheme entry) = Inr extra
        \<and> res = (Item entry, extra)"
      by (auto simp: NewAddEntryRequest_def Format_ChecksumV1
          split: sum.splits if_splits list.splits option.splits)
  next
    assume "\<exists>entry c c0 cs extra.
          UnpackJsonPost (json_AddEntryRequest E) r = Inr entry
        \<and> item_Unmarshal E (Item entry) = Inr (ItemChecksumV1 c)
        \<and> buildChainFromDerList E lp (Chain entry) = Inr (c0 # cs)
        \<and> verifySignature E lp c0 (SignatureScheme entry) (Item entry) (Signature entry) = None
        \<and> NewAppendix_Marshal E (c0 # cs) (Signature entry) (SignatureScheme entry) = Inr extra
        \<and> res = (Item entry, extra)"
    then show "NewAddEntryRequest E lp r = Some (Inr res)"
      by (auto simp: NewAddEntryRequest_def)
  qed
  have bad: "addEntry E lp rest st r = Some (sendHTTPError 400, st)"
    if "NewAddEntryRequest E lp r = Some (Inl err)" for err
    using that by (simp add: addEntry_def StatusBadRequest_def)
  have none: "NewAddEntryRequest E lp r = None \<longleftrightarrow>
        (\<exists>entry c.
            UnpackJsonPost (json_AddEntryRequest E) r = Inr entry
          \<and> item_Unmarshal E (Item entry) = Inr (ItemChecksumV1 c)
          \<and> buildChainFromDerList E lp (Chain entry) = Inr [])"
    by (auto simp: NewAddEntryRequest_def Format_ChecksumV1
        split: sum.splits if_splits list.splits option.splits)
  have body: "NewAddEntryRequest E lp r = Some (Inl e_body)"
    if "UnpackJsonPost (json_AddEntryRequest E) r = Inl e_body"
    using that by (simp add: NewAddEntryRequest_def)
  have itm: "NewAddEntryRequest E lp r = Some (Inl (BadItem e_item))"
    if "UnpackJsonPost (json_AddEntryRequest E) r = Inr ent"
      and "item_Unmarshal E (Item ent) = Inl e_item"
    using that by (simp add: NewAddEntryRequest_def)
  have fmt: "NewAddEntryRequest E lp r = Some (Inl InvalidFormat)"
    if "UnpackJsonPost (json_AddEntryRequest E) r = Inr ent"
      and "item_Unmarshal E (Item ent) = Inr item"
      and "Format item \<noteq> StFormatChecksumV1"
    using that by (simp add: NewAddEntryRequest_def)
  have chn: "NewAddEntryRequest E lp r = Some (Inl (InvalidChain e_chain))"
    if "UnpackJsonPost (json_AddEntryRequest E) r = Inr ent"
      and "item_Unmarshal E (Item ent) = Inr item"
      and "Format item = StFormatChecksumV1"
      and "buildChainFromDerList E lp (Chain ent) = Inl e_chain"
    using that by (simp add: NewAddEntryRequest_def)
  have sg: "NewAddEntryRequest E lp r = Some (Inl (InvalidSignature e_sig))"
    if "UnpackJsonPost (json_AddEntryRequest E) r = Inr ent"
      and "item_Unmarshal E (Item ent) = Inr item"
      and "Format item = StFormatChecksumV1"
      and "buildChainFromDerList E lp (Chain ent) = Inr (crt # crts)"
      and "verifySignature E lp crt (SignatureScheme ent) (Item ent) (Signature ent)
            = Some e_sig"
    using that by (simp add: NewAddEntryRequest_def)
  have app: "NewAddEntryRequest E lp r = Some (Inl (AppendixMarshal e_app))"
    if "UnpackJsonPost (json_AddEntryRequest E) r = Inr ent"
      and "item_Unmarshal E (Item ent) = Inr item"
      and "Format item = StFormatChecksumV1"
      and "buildChainFromDerList E lp (Chain ent) = Inr (crt # crts)"
      and "verifySignature E lp crt (SignatureScheme ent) (Item ent) (Signature ent) = None"
      and "NewAppendix_Marshal E (crt # crts) (Signature ent) (SignatureScheme ent)
            = Inl e_app"
    using that by (simp add: NewAddEntryRequest_def)
  show ?thesis
    apply (intro conjI)
            apply (rule ok)
    using bad apply blast
    using body bad apply blast
    using itm bad apply blast
    using fmt bad apply blast
    using chn bad apply blast
    using sg bad apply blast
    using app bad apply blast
    apply (rule none)
    done
qed

text \<open>
  The claim as it is written asks for the signature to verify under the namespace that
  the \<open>ChecksumV1\<close> carries.  The code takes the key from the first certificate of the
  chain: a request whose item names one key and whose signature is made with the key of
  its certificate is accepted, though the signature does not verify under the namespace.
\<close>

theorem NewAddEntryRequest_other_key:
  "NewAddEntryRequest test_add_entry_env test_lp (test_add_entry_request test_entry_body)
     = Some (Inr (test_leaf, test_cert @ test_cert @ test_leaf))
   \<and> Unmarshal test_codec test_leaf = Inr test_checksum
   \<and> test_checksum = ItemChecksumV1 \<lparr>package = [0x66, 0x6f, 0x6f], checksum = replicate 32 0,
                                        cs_namespace = test_namespace 1\<rparr>
   \<and> \<not> test_ns_verify (test_namespace 1) test_leaf (test_cert @ test_leaf)"
proof (intro conjI)
  show "Unmarshal test_codec test_leaf = Inr test_checksum"
    by (rule Unmarshal_test_leaf)
  show "test_checksum = ItemChecksumV1 \<lparr>package = [0x66, 0x6f, 0x6f], checksum = replicate 32 0,
                                        cs_namespace = test_namespace 1\<rparr>"
    by (rule test_checksum_def)
  show "\<not> test_ns_verify (test_namespace 1) test_leaf (test_cert @ test_leaf)"
    by (simp add: test_ns_verify_def toy_verify_def test_namespace_def test_cert_def)
  have f: "Format test_checksum = StFormatChecksumV1"
    by (simp add: test_checksum_def)
  show "NewAddEntryRequest test_add_entry_env test_lp (test_add_entry_request test_entry_body)
     = Some (Inr (test_leaf, test_cert @ test_cert @ test_leaf))"
    unfolding NewAddEntryRequest_def UnpackJsonPost_test_entry
    by (simp add: test_add_entry_env_def test_entry_def Unmarshal_test_leaf f toy_verify_def)
qed

theorem NewAddEntryRequest_iff_witness:
  "NewAddEntryRequest test_add_entry_env test_lp (test_add_entry_request test_entry_body)
     = Some (Inr (test_leaf, test_cert @ test_cert @ test_leaf))
   \<and> addEntry test_add_entry_env test_lp test_ok () (test_add_entry_request [])
     = Some (sendHTTPError 400, ())
   \<and> NewAddEntryRequest test_add_entry_env test_lp (test_add_entry_request [])
     = Some (Inl (ParseJson (Other ''json'')))"
proof (intro conjI)
  have "\<exists>entry c c0 cs extra.
          UnpackJsonPost (json_AddEntryRequest test_add_entry_env)
            (test_add_entry_request test_entry_body) = Inr entry
        \<and> item_Unmarshal test_add_entry_env (Item entry) = Inr (ItemChecksumV1 c)
        \<and> buildChainFromDerList test_add_entry_env test_lp (Chain entry) = Inr (c0 # cs)
        \<and> verifySignature test_add_entry_env test_lp c0 (SignatureScheme entry) (Item entry)
            (Signature entry) = None
        \<and> NewAppendix_Marshal test_add_entry_env (c0 # cs) (Signature entry)
            (SignatureScheme entry) = Inr extra
        \<and> (test_leaf, test_cert @ test_cert @ test_leaf) = (Item entry, extra)"
    unfolding UnpackJsonPost_test_entry
    by (simp add: test_add_entry_env_def test_entry_def Unmarshal_test_leaf toy_verify_def
        test_checksum_def)
  then show "NewAddEntryRequest test_add_entry_env test_lp (test_add_entry_request test_entry_body)
     = Some (Inr (test_leaf, test_cert @ test_cert @ test_leaf))"
    using NewAddEntryRequest_iff
      [where E = test_add_entry_env and lp = test_lp
         and r = "test_add_entry_request test_entry_body"
         and res = "(test_leaf, test_cert @ test_cert @ test_leaf)",
       THEN conjunct1]
    by blast
next
  have "\<exists>err. NewAddEntryRequest test_add_entry_env test_lp (test_add_entry_request [])
      = Some (Inl err)"
    unfolding NewAddEntryRequest_def UnpackJsonPost_test_empty by simp
  then show "addEntry test_add_entry_env test_lp test_ok () (test_add_entry_request [])
     = Some (sendHTTPError 400, ())"
    using NewAddEntryRequest_iff
      [where E = test_add_entry_env and lp = test_lp
         and r = "test_add_entry_request []" and rest = test_ok and st = "()",
       THEN conjunct2, THEN conjunct1]
    by blast
next
  show "NewAddEntryRequest test_add_entry_env test_lp (test_add_entry_request [])
     = Some (Inl (ParseJson (Other ''json'')))"
    using NewAddEntryRequest_iff
      [where E = test_add_entry_env and lp = test_lp
         and r = "test_add_entry_request []" and rest = test_ok and st = "()"
         and e_body = "ParseJson (Other ''json'')",
       THEN conjunct2, THEN conjunct2, THEN conjunct1]
      UnpackJsonPost_test_empty
    by blast
qed

section \<open>Method discipline\<close>

text \<open>
  C8.  An endpoint that is registered for GET answers a POST with 405, and an endpoint
  that is registered for POST answers a GET with 405, whatever the request holds
  otherwise; the state is left as it was.  More generally, every request whose method is
  not the endpoint's is answered with 405.
\<close>

theorem method_discipline:
  "(endpoint_method ep = MethodGet \<and> Method r = MethodPost \<longrightarrow>
      ServeHTTP (register fs ep) st r = (sendHTTPError 405, st))
   \<and> (endpoint_method ep = MethodPost \<and> Method r = MethodGet \<longrightarrow>
      ServeHTTP (register fs ep) st r = (sendHTTPError 405, st))
   \<and> (Method r \<noteq> endpoint_method ep \<longrightarrow>
      ServeHTTP (register fs ep) st r = (sendHTTPError 405, st))"
  by (simp add: ServeHTTP_def register_def StatusMethodNotAllowed_def MethodGet_def
      MethodPost_def)

theorem method_discipline_witness:
  "ServeHTTP (register (\<lambda>ep u r. test_ok r u) EndpointGetEntries) ()
     \<lparr>Method = MethodPost, Form = [], Body = Inr [1, 2, 3]\<rparr> = (sendHTTPError 405, ())
   \<and> ServeHTTP (register (\<lambda>ep u r. test_ok r u) EndpointAddEntry) ()
     \<lparr>Method = MethodGet, Form = [(''start'', ''0'')], Body = Inr []\<rparr>
     = (sendHTTPError 405, ())
   \<and> ServeHTTP (register (\<lambda>ep u r. test_ok r u) EndpointAddCosignature) ()
     \<lparr>Method = ''PUT'', Form = [], Body = Inr []\<rparr> = (sendHTTPError 405, ())"
  using method_discipline
    [of EndpointGetEntries "\<lparr>Method = MethodPost, Form = [], Body = Inr [1, 2, 3]\<rparr>"
        "\<lambda>ep u r. test_ok r u" "()"]
    method_discipline
    [of EndpointAddEntry "\<lparr>Method = MethodGet, Form = [(''start'', ''0'')], Body = Inr []\<rparr>"
        "\<lambda>ep u r. test_ok r u" "()"]
    method_discipline
    [of EndpointAddCosignature "\<lparr>Method = ''PUT'', Form = [], Body = Inr []\<rparr>"
        "\<lambda>ep u r. test_ok r u" "()"]
  by (simp add: MethodGet_def MethodPost_def)

section \<open>Properties of the cosigning state\<close>

lemma Code_sendHTTPError: "Code (sendHTTPError c) = c"
  by (simp add: sendHTTPError_def)

lemma is_witness_test: "is_witness test_codec test_lp (test_namespace b) \<longleftrightarrow> b = 1"
  by (simp add: is_witness_def test_lp_def put_test_namespace_eq)

lemma sig_namespace_test: "sig_namespace (test_cosignature b) = test_namespace b"
  by (simp add: test_cosignature_def)

lemma verify_test_cosignature:
  "test_ns_verify (test_namespace b) (Marshal test_codec (ItemSignedTreeHeadV1 test_sth))
     (sig_signature (test_cosignature b))"
  by (simp add: test_ns_verify_def toy_verify_def test_cosignature_def test_namespace_def)

lemma AddCosignature_test_first:
  "AddCosignature test_codec test_ns_verify test_lp test_source test_sth (test_cosignature 1)
   = Inr test_source_1"
  by (simp add: AddCosignature_def Let_def sig_namespace_test is_witness_test same_sth_def
      verify_test_cosignature test_source_def test_source_1_def)

lemma addCosi_test_first:
  "addCosi test_codec test_json_costh test_ns_verify test_lp test_source (test_cosi_request 1)
   = (\<lparr>Code = 200, Text = []\<rparr>, test_source_1)"
  by (simp add: addCosi_def NewAddCosignatureRequest_test AddCosignature_test_first StatusOK_def)

lemma AddCosignature_test_second:
  "AddCosignature test_codec test_ns_verify test_lp test_source_1 test_sth (test_cosignature 1)
   = Inr test_source_1"
  by (simp add: AddCosignature_def Let_def sig_namespace_test is_witness_test same_sth_def
      verify_test_cosignature test_source_1_def)

lemma addCosi_test_second:
  "addCosi test_codec test_json_costh test_ns_verify test_lp test_source_1 (test_cosi_request 1)
   = (\<lparr>Code = 200, Text = []\<rparr>, test_source_1)"
  by (simp add: addCosi_def NewAddCosignatureRequest_test AddCosignature_test_second StatusOK_def)

text \<open>
  C3.  \<open>add-cosignature\<close> answers 200 only if the namespace of the enclosed cosignature
  is one of the log's witnesses and the enclosed tree head is, byte for byte, the next
  candidate.  A request that parses and fails either condition is answered with 400, and
  the state is left as it was; indeed every answer other than 200 is a 400 that leaves
  the state as it was.
\<close>

theorem addCosi_gating:
  "(addCosi C json verify lp src r = (rsp, src') \<and> Code rsp = 200 \<longrightarrow>
      (\<exists>s sg. NewAddCosignatureRequest C json r = Inr (s, sg)
         \<and> is_witness C lp (sig_namespace sg)
         \<and> same_sth C s (sth (nextCosth src))))
   \<and> (NewAddCosignatureRequest C json r = Inr (s, sg)
        \<and> (\<not> is_witness C lp (sig_namespace sg) \<or> \<not> same_sth C s (sth (nextCosth src))) \<longrightarrow>
      addCosi C json verify lp src r = (sendHTTPError 400, src))
   \<and> (addCosi C json verify lp src r = (rsp, src') \<and> Code rsp \<noteq> 200 \<longrightarrow>
      rsp = sendHTTPError 400 \<and> src' = src)"
proof (intro conjI impI)
  assume "addCosi C json verify lp src r = (rsp, src') \<and> Code rsp \<noteq> 200"
  then show "rsp = sendHTTPError 400" and "src' = src"
    by (auto simp: addCosi_def StatusBadRequest_def StatusOK_def split: sum.splits prod.splits)
next
  assume a: "addCosi C json verify lp src r = (rsp, src') \<and> Code rsp = 200"
  show "\<exists>s sg. NewAddCosignatureRequest C json r = Inr (s, sg)
         \<and> is_witness C lp (sig_namespace sg)
         \<and> same_sth C s (sth (nextCosth src))"
  proof (cases "NewAddCosignatureRequest C json r")
    case (Inl err)
    with a show ?thesis
      by (auto simp: addCosi_def StatusBadRequest_def Code_sendHTTPError)
  next
    case (Inr p)
    obtain s sg where p: "p = (s, sg)" by (cases p)
    from a Inr p have "\<exists>x. AddCosignature C verify lp src s sg = Inr x"
      by (cases "AddCosignature C verify lp src s sg")
        (auto simp: addCosi_def StatusBadRequest_def Code_sendHTTPError)
    then have "is_witness C lp (sig_namespace sg) \<and> same_sth C s (sth (nextCosth src))"
      by (auto simp: AddCosignature_def Let_def split: if_splits)
    with Inr p show ?thesis by simp
  qed
next
  assume "NewAddCosignatureRequest C json r = Inr (s, sg)
        \<and> (\<not> is_witness C lp (sig_namespace sg) \<or> \<not> same_sth C s (sth (nextCosth src)))"
  then show "addCosi C json verify lp src r = (sendHTTPError 400, src)"
    by (auto simp: addCosi_def AddCosignature_def Let_def StatusBadRequest_def)
qed

theorem addCosi_gating_witness:
  "addCosi test_codec test_json_costh test_ns_verify test_lp test_source (test_cosi_request 1)
     = (\<lparr>Code = 200, Text = []\<rparr>, test_source_1)
   \<and> is_witness test_codec test_lp (test_namespace 1)
   \<and> same_sth test_codec test_sth (sth (nextCosth test_source))
   \<and> addCosi test_codec test_json_costh test_ns_verify test_lp test_source (test_cosi_request 2)
     = (sendHTTPError 400, test_source)"
proof -
  have one: "addCosi test_codec test_json_costh test_ns_verify test_lp test_source
      (test_cosi_request 1) = (\<lparr>Code = 200, Text = []\<rparr>, test_source_1)
      \<and> Code \<lparr>Code = 200, Text = []\<rparr> = 200"
    by (simp add: addCosi_test_first)
  have two: "NewAddCosignatureRequest test_codec test_json_costh (test_cosi_request 2)
      = Inr (test_sth, test_cosignature 2)
      \<and> (\<not> is_witness test_codec test_lp (sig_namespace (test_cosignature 2))
          \<or> \<not> same_sth test_codec test_sth (sth (nextCosth test_source)))"
    by (simp add: NewAddCosignatureRequest_test sig_namespace_test is_witness_test)
  from one addCosi_gating
    [of test_codec test_json_costh test_ns_verify test_lp test_source "test_cosi_request 1"
        "\<lparr>Code = 200, Text = []\<rparr>" test_source_1 test_sth "test_cosignature 1"]
  have "\<exists>s sg. NewAddCosignatureRequest test_codec test_json_costh (test_cosi_request 1)
          = Inr (s, sg) \<and> is_witness test_codec test_lp (sig_namespace sg)
          \<and> same_sth test_codec s (sth (nextCosth test_source))"
    by blast
  then have a: "is_witness test_codec test_lp (test_namespace 1)
      \<and> same_sth test_codec test_sth (sth (nextCosth test_source))"
    by (simp add: NewAddCosignatureRequest_test sig_namespace_test)
  from two addCosi_gating
    [of test_codec test_json_costh test_ns_verify test_lp test_source "test_cosi_request 2"
        "\<lparr>Code = 200, Text = []\<rparr>" test_source_1 test_sth "test_cosignature 2"]
  have b: "addCosi test_codec test_json_costh test_ns_verify test_lp test_source
      (test_cosi_request 2) = (sendHTTPError 400, test_source)"
    by blast
  from one a b show ?thesis by simp
qed

lemma addCosi_ok_D:
  assumes "addCosi C json verify lp src r = (rsp, src')" and "Code rsp = 200"
    and "NewAddCosignatureRequest C json r = Inr (s, sg)"
  shows "AddCosignature C verify lp src s sg = Inr src'"
  using assms
  by (cases "AddCosignature C verify lp src s sg")
    (auto simp: addCosi_def StatusBadRequest_def Code_sendHTTPError)

lemma AddCosignature_seen:
  assumes "AddCosignature C verify lp src s sg = Inr src'"
    and "put_namespace C (sig_namespace sg) \<in> cosignatureFrom src"
  shows "src' = src"
  using assms by (auto simp: AddCosignature_def Let_def split: if_splits)

lemma AddCosignature_new:
  assumes "AddCosignature C verify lp src s sg = Inr src'"
    and "put_namespace C (sig_namespace sg) \<notin> cosignatureFrom src"
  shows "cosignatures (nextCosth src') = cosignatures (nextCosth src) @ [sg]"
    and "cosignatureFrom src' = insert (put_namespace C (sig_namespace sg)) (cosignatureFrom src)"
    and "sth (nextCosth src') = sth (nextCosth src)"
    and "currCosth src' = currCosth src"
  using assms by (auto simp: AddCosignature_def Let_def split: if_splits)

lemma one_each_rotate: "one_each C (rotate_source (Inr fresh) src)"
  by (simp add: one_each_def cosignatures_of_def rotate_source_def)

lemma one_each_AddCosignature:
  assumes "one_each C src" and "AddCosignature C verify lp src s sg = Inr src'"
  shows "one_each C src'"
proof (cases "put_namespace C (sig_namespace sg) \<in> cosignatureFrom src")
  case True
  with assms(2) have "src' = src" by (rule AddCosignature_seen)
  with assms(1) show ?thesis by simp
next
  case False
  note new = AddCosignature_new [OF assms(2) False]
  from assms(1) False have "length (cosignatures_of C (put_namespace C (sig_namespace sg)) src) = 0"
    by (simp add: one_each_def)
  with assms(1) show ?thesis
    unfolding one_each_def cosignatures_of_def new(1,2) by auto
qed

lemma one_each_addCosi:
  assumes "one_each C src"
  shows "one_each C (snd (addCosi C json verify lp src r))"
proof (cases "NewAddCosignatureRequest C json r")
  case (Inl err)
  with assms show ?thesis by (simp add: addCosi_def)
next
  case (Inr p)
  obtain s sg where p: "p = (s, sg)" by (cases p)
  show ?thesis
  proof (cases "AddCosignature C verify lp src s sg")
    case (Inl err)
    with assms Inr p show ?thesis by (simp add: addCosi_def)
  next
    case (Inr src')
    with assms have "one_each C src'" by (rule one_each_AddCosignature)
    with Inr \<open>NewAddCosignatureRequest C json r = Inr p\<close> p show ?thesis
      by (simp add: addCosi_def)
  qed
qed

lemma one_each_addCosi_all:
  "one_each C src \<Longrightarrow> one_each C (addCosi_all C json verify lp src rs)"
  by (induction rs arbitrary: src) (simp_all add: one_each_addCosi)

lemma epoch_one_each:
  "length (cosignatures_of C w (addCosi_all C json verify lp (rotate_source (Inr fresh) src) rs))
   = (if w \<in> cosignatureFrom (addCosi_all C json verify lp (rotate_source (Inr fresh) src) rs)
      then 1 else 0)"
  using one_each_addCosi_all [OF one_each_rotate, where C = C and json = json
      and verify = verify and lp = lp and rs = rs and ?fresh1 = fresh and ?src1 = src]
  by (simp add: one_each_def)

text \<open>
  C7.  A valid \<open>add-cosignature\<close> from a witness that has already cosigned the candidate
  is answered with 200 and changes nothing.  Two successful calls from the same witness,
  the first from a state in which it has not cosigned yet, add exactly one cosignature
  to the candidate, the first one, and the witness to the set of those seen; the second
  call leaves the state as the first one made it.  And whatever requests are served in
  the epoch that a rotation starts, a witness has one cosignature in the candidate if it
  is in the set of those seen, and none otherwise.
\<close>

theorem addCosi_duplicate:
  "(NewAddCosignatureRequest C json r = Inr (s, sg)
      \<and> is_witness C lp (sig_namespace sg)
      \<and> same_sth C s (sth (nextCosth src))
      \<and> verify (sig_namespace sg) (Marshal C (ItemSignedTreeHeadV1 s)) (sig_signature sg)
      \<and> put_namespace C (sig_namespace sg) \<in> cosignatureFrom src \<longrightarrow>
    addCosi C json verify lp src r = (\<lparr>Code = 200, Text = []\<rparr>, src))
   \<and> (addCosi C json verify lp src r1 = (rsp1, src1) \<and> Code rsp1 = 200
      \<and> addCosi C json verify lp src1 r2 = (rsp2, src2) \<and> Code rsp2 = 200
      \<and> NewAddCosignatureRequest C json r1 = Inr (s1, sg1)
      \<and> NewAddCosignatureRequest C json r2 = Inr (s2, sg2)
      \<and> put_namespace C (sig_namespace sg2) = put_namespace C (sig_namespace sg1)
      \<and> put_namespace C (sig_namespace sg1) \<notin> cosignatureFrom src \<longrightarrow>
    src2 = src1
    \<and> cosignatures (nextCosth src2) = cosignatures (nextCosth src) @ [sg1]
    \<and> cosignatureFrom src2 = insert (put_namespace C (sig_namespace sg1)) (cosignatureFrom src))
   \<and> length (cosignatures_of C w (addCosi_all C json verify lp (rotate_source (Inr fresh) src0) rs))
     = (if w \<in> cosignatureFrom (addCosi_all C json verify lp (rotate_source (Inr fresh) src0) rs)
        then 1 else 0)"
proof (intro conjI impI)
  show "length (cosignatures_of C w (addCosi_all C json verify lp (rotate_source (Inr fresh) src0) rs))
     = (if w \<in> cosignatureFrom (addCosi_all C json verify lp (rotate_source (Inr fresh) src0) rs)
        then 1 else 0)"
    by (rule epoch_one_each)
next
  assume "NewAddCosignatureRequest C json r = Inr (s, sg)
      \<and> is_witness C lp (sig_namespace sg)
      \<and> same_sth C s (sth (nextCosth src))
      \<and> verify (sig_namespace sg) (Marshal C (ItemSignedTreeHeadV1 s)) (sig_signature sg)
      \<and> put_namespace C (sig_namespace sg) \<in> cosignatureFrom src"
  then show "addCosi C json verify lp src r = (\<lparr>Code = 200, Text = []\<rparr>, src)"
    by (simp add: addCosi_def AddCosignature_def Let_def StatusOK_def)
next
  assume a: "addCosi C json verify lp src r1 = (rsp1, src1) \<and> Code rsp1 = 200
      \<and> addCosi C json verify lp src1 r2 = (rsp2, src2) \<and> Code rsp2 = 200
      \<and> NewAddCosignatureRequest C json r1 = Inr (s1, sg1)
      \<and> NewAddCosignatureRequest C json r2 = Inr (s2, sg2)
      \<and> put_namespace C (sig_namespace sg2) = put_namespace C (sig_namespace sg1)
      \<and> put_namespace C (sig_namespace sg1) \<notin> cosignatureFrom src"
  then have one: "AddCosignature C verify lp src s1 sg1 = Inr src1"
    and two: "AddCosignature C verify lp src1 s2 sg2 = Inr src2"
    by (blast intro: addCosi_ok_D)+
  from a have new: "put_namespace C (sig_namespace sg1) \<notin> cosignatureFrom src"
    and same: "put_namespace C (sig_namespace sg2) = put_namespace C (sig_namespace sg1)"
    by simp_all
  have c1: "cosignatures (nextCosth src1) = cosignatures (nextCosth src) @ [sg1]"
    and f1: "cosignatureFrom src1 = insert (put_namespace C (sig_namespace sg1)) (cosignatureFrom src)"
    using AddCosignature_new [OF one new] by simp_all
  from f1 same have "put_namespace C (sig_namespace sg2) \<in> cosignatureFrom src1" by simp
  with two have e: "src2 = src1" by (rule AddCosignature_seen)
  show "src2 = src1" by (rule e)
  show "cosignatures (nextCosth src2) = cosignatures (nextCosth src) @ [sg1]"
    using e c1 by simp
  show "cosignatureFrom src2 = insert (put_namespace C (sig_namespace sg1)) (cosignatureFrom src)"
    using e f1 by simp
qed

theorem addCosi_duplicate_witness:
  "addCosi test_codec test_json_costh test_ns_verify test_lp test_source_1 (test_cosi_request 1)
     = (\<lparr>Code = 200, Text = []\<rparr>, test_source_1)
   \<and> cosignatures (nextCosth test_source_1)
     = cosignatures (nextCosth test_source) @ [test_cosignature 1]
   \<and> cosignatureFrom test_source_1
     = insert (put_namespace test_codec (sig_namespace (test_cosignature 1)))
         (cosignatureFrom test_source)
   \<and> length (cosignatures_of test_codec (put_namespace test_codec (test_namespace 1))
         (addCosi_all test_codec test_json_costh test_ns_verify test_lp
            (rotate_source (Inr test_sth) test_source)
            [test_cosi_request 1, test_cosi_request 2, test_cosi_request 1])) = 1"
proof -
  have seen: "put_namespace test_codec (sig_namespace (test_cosignature 1))
      \<in> cosignatureFrom test_source_1"
    by (simp add: test_source_1_def sig_namespace_test)
  have fresh: "put_namespace test_codec (sig_namespace (test_cosignature 1))
      \<notin> cosignatureFrom test_source"
    by (simp add: test_source_def)
  have next1: "sth (nextCosth test_source_1) = test_sth"
    by (simp add: test_source_1_def)
  have valid: "NewAddCosignatureRequest test_codec test_json_costh (test_cosi_request 1)
        = Inr (test_sth, test_cosignature 1)
      \<and> is_witness test_codec test_lp (sig_namespace (test_cosignature 1))
      \<and> same_sth test_codec test_sth (sth (nextCosth test_source_1))
      \<and> test_ns_verify (sig_namespace (test_cosignature 1))
          (Marshal test_codec (ItemSignedTreeHeadV1 test_sth))
          (sig_signature (test_cosignature 1))"
    by (simp add: NewAddCosignatureRequest_test sig_namespace_test is_witness_test same_sth_def
        next1 verify_test_cosignature)
  note dupA = addCosi_duplicate
    [where C = test_codec and json = test_json_costh and verify = test_ns_verify
       and lp = test_lp and src = test_source_1 and r = "test_cosi_request 1"
       and s = test_sth and sg = "test_cosignature 1"]
  note dupB = addCosi_duplicate
    [where C = test_codec and json = test_json_costh and verify = test_ns_verify
       and lp = test_lp and src = test_source
       and ?r1.0 = "test_cosi_request 1" and ?rsp1.0 = "\<lparr>Code = 200, Text = []\<rparr>"
       and ?src1.0 = test_source_1
       and ?r2.0 = "test_cosi_request 1" and ?rsp2.0 = "\<lparr>Code = 200, Text = []\<rparr>"
       and ?src2.0 = test_source_1
       and ?s1.0 = test_sth and ?sg1.0 = "test_cosignature 1"
       and ?s2.0 = test_sth and ?sg2.0 = "test_cosignature 1"]
  from dupA valid seen
  have a: "addCosi test_codec test_json_costh test_ns_verify test_lp test_source_1
      (test_cosi_request 1) = (\<lparr>Code = 200, Text = []\<rparr>, test_source_1)"
    by blast
  have calls: "addCosi test_codec test_json_costh test_ns_verify test_lp test_source
        (test_cosi_request 1) = (\<lparr>Code = 200, Text = []\<rparr>, test_source_1)
      \<and> Code \<lparr>Code = 200, Text = []\<rparr> = 200
      \<and> addCosi test_codec test_json_costh test_ns_verify test_lp test_source_1
        (test_cosi_request 1) = (\<lparr>Code = 200, Text = []\<rparr>, test_source_1)"
    by (simp add: addCosi_test_first addCosi_test_second)
  from dupB calls valid fresh
  have b: "cosignatures (nextCosth test_source_1)
        = cosignatures (nextCosth test_source) @ [test_cosignature 1]
      \<and> cosignatureFrom test_source_1
        = insert (put_namespace test_codec (sig_namespace (test_cosignature 1)))
            (cosignatureFrom test_source)"
    by blast
  have "rotate_source (Inr test_sth) test_source = test_source"
    by (simp add: rotate_source_def test_source_def)
  moreover have "addCosi test_codec test_json_costh test_ns_verify test_lp test_source_1
      (test_cosi_request 2) = (sendHTTPError 400, test_source_1)"
    by (simp add: addCosi_def NewAddCosignatureRequest_test AddCosignature_def Let_def
        sig_namespace_test is_witness_test StatusBadRequest_def)
  ultimately have run: "addCosi_all test_codec test_json_costh test_ns_verify test_lp
      (rotate_source (Inr test_sth) test_source)
      [test_cosi_request 1, test_cosi_request 2, test_cosi_request 1] = test_source_1"
    by (simp add: addCosi_test_first addCosi_test_second)
  have seen1: "put_namespace test_codec (test_namespace 1) \<in> cosignatureFrom test_source_1"
    by (simp add: test_source_1_def)
  note epoch = addCosi_duplicate
    [where C = test_codec and json = test_json_costh and verify = test_ns_verify
       and lp = test_lp and w = "put_namespace test_codec (test_namespace 1)"
       and fresh = test_sth and ?src0.0 = test_source
       and rs = "[test_cosi_request 1, test_cosi_request 2, test_cosi_request 1]",
     THEN conjunct2, THEN conjunct2]
  have c: "length (cosignatures_of test_codec (put_namespace test_codec (test_namespace 1))
         (addCosi_all test_codec test_json_costh test_ns_verify test_lp
            (rotate_source (Inr test_sth) test_source)
            [test_cosi_request 1, test_cosi_request 2, test_cosi_request 1])) = 1"
    using epoch seen1 unfolding run by simp
  from a b c show ?thesis by (intro conjI) simp_all
qed

section \<open>Properties of the cosignature collector\<close>

lemma getCosignature_loop_result:
  assumes "getCosignature_loop E gcp i cp k w = Some y"
  shows "publicKey (snd y) = publicKey w \<and> keyHash (snd y) = keyHash w
         \<and> client (snd y) = client w
         \<and> (\<forall>item. fst y = Inr item \<longrightarrow>
               ci_keyHash item = keyHash w
               \<and> (\<exists>k' req sigs. client w k' req = Inr sigs
                     \<and> VerifyCosignatureByKey E cp sigs (publicKey w) = Inr (ci_cs item)))"
  using assms
proof (induction rule: getCosignature_loop.raw_induct [rotated 1, consumes 1])
  case (1 loop E gcp i cp k w y)
  show ?case
  proof (cases "gcp i k \<lparr>OldSize = prevSize w, NewSize = Size (cp_SignedTreeHead cp)\<rparr>")
    case (Inl err)
    with 1(2) show ?thesis by auto
  next
    case (Inr pf)
    note g = Inr
    show ?thesis
    proof (cases "client w k \<lparr>ac_OldSize = prevSize w, ac_Proof = pf, ac_Checkpoint = cp\<rparr>")
      case (Inr sigs)
      note c = Inr
      show ?thesis
      proof (cases "VerifyCosignatureByKey E cp sigs (publicKey w)")
        case (Inl err)
        with g c 1(2) show ?thesis by auto
      next
        case (Inr cs)
        from g c Inr 1(2)
        have y: "y = (Inr \<lparr>ci_keyHash = keyHash w, ci_cs = cs\<rparr>,
                      w\<lparr>prevSize := Size (cp_SignedTreeHead cp)\<rparr>)"
          by simp
        have ex: "\<exists>k' req sigs. client w k' req = Inr sigs
            \<and> VerifyCosignatureByKey E cp sigs (publicKey w) = Inr cs"
          using c Inr by blast
        show ?thesis
        proof (intro conjI allI impI)
          fix item
          assume "fst y = Inr item"
          with y have item: "item = \<lparr>ci_keyHash = keyHash w, ci_cs = cs\<rparr>"
            by simp
          show "ci_keyHash item = keyHash w"
            by (simp add: item)
          show "\<exists>k' req sigs. client w k' req = Inr sigs
              \<and> VerifyCosignatureByKey E cp sigs (publicKey w) = Inr (ci_cs item)"
            by (simp add: item ex)
        qed (simp_all add: y)
      qed
    next
      case (Inl err)
      show ?thesis
      proof (cases "ErrorConflictOldSize err")
        case None
        with g Inl 1(2) show ?thesis by auto
      next
        case (Some oldSize)
        with g Inl 1(2) have "loop E gcp i cp (Suc k) (w\<lparr>prevSize := oldSize\<rparr>) = Some y"
          by simp
        from 1(1) [OF this] show ?thesis by simp
      qed
    qed
  qed
qed

lemma getCosignature_loop_diverges_aux:
  assumes "getCosignature_loop E gcp i cp k w = Some y"
  shows "(\<forall>i k req. \<exists>p. gcp i k req = Inr p) \<longrightarrow>
         (\<forall>k req. \<exists>oldSize. client w k req = Inl (Conflict oldSize)) \<longrightarrow> False"
  using assms
proof (induction rule: getCosignature_loop.raw_induct [rotated 1, consumes 1])
  case (1 loop E gcp i cp k w y)
  show ?case
  proof (intro impI)
    assume a: "\<forall>i k req. \<exists>p. gcp i k req = Inr p"
      and b: "\<forall>k req. \<exists>oldSize. client w k req = Inl (Conflict oldSize)"
    obtain pf where g: "gcp i k \<lparr>OldSize = prevSize w, NewSize = Size (cp_SignedTreeHead cp)\<rparr> = Inr pf"
      using a by blast
    obtain oldSize where c: "client w k \<lparr>ac_OldSize = prevSize w, ac_Proof = pf, ac_Checkpoint = cp\<rparr>
        = Inl (Conflict oldSize)"
      using b by blast
    from 1(2) g c have "loop E gcp i cp (Suc k) (w\<lparr>prevSize := oldSize\<rparr>) = Some y"
      by simp
    from 1(1) [OF this] a b show False by simp
  qed
qed

lemma getCosignature_loop_diverges:
  assumes "\<And>i k req. \<exists>p. gcp i k req = Inr p"
    and "\<And>k req. \<exists>oldSize. client w k req = Inl (Conflict oldSize)"
  shows "getCosignature_loop E gcp i cp k w = None"
proof (cases "getCosignature_loop E gcp i cp k w")
  case None
  then show ?thesis .
next
  case (Some y)
  from getCosignature_loop_diverges_aux [OF this] assms show ?thesis by blast
qed

lemma getCosignature_loop_returns:
  assumes "\<And>k' req oldSize. N \<le> k' \<Longrightarrow> client w k' req \<noteq> Inl (Conflict oldSize)"
  shows "getCosignature_loop E gcp i cp k w \<noteq> None"
  using assms
proof (induction "N - k" arbitrary: k w)
  case 0
  show ?case
  proof (cases "gcp i k \<lparr>OldSize = prevSize w, NewSize = Size (cp_SignedTreeHead cp)\<rparr>")
    case (Inl err)
    then show ?thesis by (subst getCosignature_loop.simps) simp
  next
    case (Inr pf)
    note g = Inr
    show ?thesis
    proof (cases "client w k \<lparr>ac_OldSize = prevSize w, ac_Proof = pf, ac_Checkpoint = cp\<rparr>")
      case (Inr sigs)
      with g show ?thesis
        by (subst getCosignature_loop.simps) (simp split: sum.splits)
    next
      case (Inl err)
      from 0 have "N \<le> k" by simp
      with 0(2) Inl have "ErrorConflictOldSize err = None"
        by (cases err) auto
      with g Inl show ?thesis by (subst getCosignature_loop.simps) simp
    qed
  qed
next
  case (Suc n)
  show ?case
  proof (cases "gcp i k \<lparr>OldSize = prevSize w, NewSize = Size (cp_SignedTreeHead cp)\<rparr>")
    case (Inl err)
    then show ?thesis by (subst getCosignature_loop.simps) simp
  next
    case (Inr pf)
    note g = Inr
    show ?thesis
    proof (cases "client w k \<lparr>ac_OldSize = prevSize w, ac_Proof = pf, ac_Checkpoint = cp\<rparr>")
      case (Inr sigs)
      with g show ?thesis
        by (subst getCosignature_loop.simps) (simp split: sum.splits)
    next
      case (Inl err)
      show ?thesis
      proof (cases "ErrorConflictOldSize err")
        case None
        with g Inl show ?thesis by (subst getCosignature_loop.simps) simp
      next
        case (Some oldSize)
        from Suc(2) have "n = N - Suc k" by simp
        then have "getCosignature_loop E gcp i cp (Suc k) (w\<lparr>prevSize := oldSize\<rparr>) \<noteq> None"
          by (rule Suc(1)) (use Suc(3) in simp)
        with g Inl Some show ?thesis by (subst getCosignature_loop.simps) simp
      qed
    qed
  qed
qed

lemma run_witnesses_Some:
  "run_witnesses E g cp i ws = Some rs \<longleftrightarrow>
     (length rs = length ws
      \<and> (\<forall>j < length ws. getCosignature E g (i + j) cp (ws ! j) = Some (rs ! j)))"
proof (induction ws arbitrary: i rs)
  case Nil
  then show ?case by auto
next
  case (Cons w ws)
  show ?case
  proof (cases "getCosignature E g i cp w")
    case None
    then show ?thesis by (auto dest: spec [of _ 0])
  next
    case (Some r)
    show ?thesis
    proof (cases rs)
      case Nil
      with Some show ?thesis by (auto split: option.splits)
    next
      case (Cons r' rs')
      have "run_witnesses E g cp (Suc i) ws = Some rs' \<longleftrightarrow>
        (length rs' = length ws
          \<and> (\<forall>j < length ws. getCosignature E g (Suc i + j) cp (ws ! j) = Some (rs' ! j)))"
        by (rule Cons.IH)
      with Some Cons show ?thesis
        by (auto simp: nth_Cons less_Suc_eq_0_disj split: option.splits nat.splits)
    qed
  qed
qed

lemma run_witnesses_None:
  "run_witnesses E g cp i ws = None \<longleftrightarrow>
     (\<exists>j < length ws. getCosignature E g (i + j) cp (ws ! j) = None)"
proof (induction ws arbitrary: i)
  case Nil
  then show ?case by simp
next
  case (Cons w ws)
  have ih: "run_witnesses E g cp (Suc i) ws = None \<longleftrightarrow>
     (\<exists>j < length ws. getCosignature E g (Suc i + j) cp (ws ! j) = None)"
    by (rule Cons.IH)
  show ?case
  proof (cases "getCosignature E g i cp w")
    case None
    then show ?thesis by auto
  next
    case (Some r)
    then show ?thesis
      using ih by (auto simp: nth_Cons less_Suc_eq_0_disj split: option.splits nat.splits)
  qed
qed

lemma receive_loop_Some:
  "receive_loop m items kh = Some cs \<Longrightarrow>
   m kh = Some cs \<or> (\<exists>it \<in> set items. ci_keyHash it = kh \<and> ci_cs it = cs)"
proof (induction items arbitrary: m)
  case Nil
  then show ?case by simp
next
  case (Cons a items)
  from Cons.prems have "receive_loop (m(ci_keyHash a \<mapsto> ci_cs a)) items kh = Some cs"
    by simp
  from Cons.IH [OF this] show ?case
    by (auto split: if_splits)
qed

lemma dom_receive_loop: "dom (receive_loop m items) = dom m \<union> ci_keyHash ` set items"
  by (induction items arbitrary: m) auto

lemma set_sent_items:
  "set (sent_items rs sched) = {item. \<exists>i \<in> set sched. i < length rs \<and> fst (rs ! i) = Inr item}"
  by (induction sched) (auto split: sum.splits)

lemma getCosignature_result:
  assumes "getCosignature E g i cp w = Some (res, w')"
  shows "publicKey w' = publicKey w" and "keyHash w' = keyHash w"
    and "res = Inr item \<Longrightarrow> ci_keyHash item = keyHash w"
    and "res = Inr item \<Longrightarrow> \<exists>k req sigs. client w k req = Inr sigs
           \<and> VerifyCosignatureByKey E cp sigs (publicKey w) = Inr (ci_cs item)"
  using getCosignature_loop_result [of E g i cp 0 w "(res, w')"] assms
  by (simp_all add: getCosignature_def)

lemma GetCosignatures_Some:
  assumes "GetCosignatures E sched c head = Some (m, c')"
    and "cp = \<lparr>cp_SignedTreeHead = head, cp_Origin = origin c, cp_KeyId = keyId c\<rparr>"
  obtains rs where "run_witnesses E (cc_getConsistencyProof c) cp 0 (witnesses c) = Some rs"
    and "m = receive_loop Map.empty (sent_items rs sched)"
    and "c' = c\<lparr>witnesses := map snd rs\<rparr>"
  using assms by (auto simp: GetCosignatures_def Let_def split: option.splits)

lemma GetCosignatures_entry:
  assumes run: "run_witnesses E g cp 0 ws = Some rs"
    and m: "receive_loop Map.empty (sent_items rs sched) kh = Some cs"
  shows "\<exists>j < length ws. \<exists>item w'. getCosignature E g j cp (ws ! j) = Some (Inr item, w')
           \<and> ci_keyHash item = kh \<and> ci_cs item = cs"
proof -
  from run have len: "length rs = length ws"
    and each: "\<And>j. j < length ws \<Longrightarrow> getCosignature E g j cp (ws ! j) = Some (rs ! j)"
    by (simp_all add: run_witnesses_Some)
  from receive_loop_Some [OF m]
  obtain it where "it \<in> set (sent_items rs sched)" and it: "ci_keyHash it = kh" "ci_cs it = cs"
    by auto
  then obtain j where j: "j < length rs" "fst (rs ! j) = Inr it"
    by (auto simp: set_sent_items)
  from j len each [of j] have "getCosignature E g j cp (ws ! j) = Some (Inr it, snd (rs ! j))"
    by (metis prod.collapse)
  with j len it show ?thesis by auto
qed

text \<open>
  C10, as the code has it.  \<open>GetCosignatures\<close> has no error to return, and it returns
  exactly when the query of every witness returns; it does so when every witness stops
  answering with a conflict after some attempt.  What it returns then is a map whose
  keys are hashes of public keys of the collector's witnesses, with no more entries than
  there are witnesses.  Each entry is a cosignature that a witness with that key hash
  returned and that verified under that witness's public key.  A witness whose query
  ends in an error, and whose key hash no other witness has, has no entry; a witness
  whose query ends with a cosignature has one.  The witnesses keep their keys.
\<close>

theorem GetCosignatures_collects:
  assumes cp: "cp = \<lparr>cp_SignedTreeHead = head, cp_Origin = origin c, cp_KeyId = keyId c\<rparr>"
    and g: "g = cc_getConsistencyProof c"
    and ws: "ws = witnesses c"
    and inv: "\<forall>w \<in> set ws. keyHash w = HashBytes E (publicKey w)"
  shows "(GetCosignatures E sched c head = None \<longleftrightarrow>
            (\<exists>j < length ws. getCosignature E g j cp (ws ! j) = None))
     \<and> ((\<forall>w \<in> set ws. \<exists>N. \<forall>k \<ge> N. \<forall>req oldSize. client w k req \<noteq> Inl (Conflict oldSize))
          \<longrightarrow> GetCosignatures E sched c head \<noteq> None)
     \<and> (GetCosignatures E sched c head = Some (m, c') \<longrightarrow>
          dom m \<subseteq> (\<lambda>w. HashBytes E (publicKey w)) ` set ws
        \<and> card (dom m) \<le> length ws
        \<and> (\<forall>kh cs. m kh = Some cs \<longrightarrow>
             (\<exists>j < length ws. kh = HashBytes E (publicKey (ws ! j))
                \<and> (\<exists>k req sigs. client (ws ! j) k req = Inr sigs
                      \<and> VerifyCosignatureByKey E cp sigs (publicKey (ws ! j)) = Inr cs)))
        \<and> (\<forall>j < length ws.
              (\<exists>err w'. getCosignature E g j cp (ws ! j) = Some (Inl err, w'))
              \<and> (\<forall>j' < length ws. j' \<noteq> j \<longrightarrow> keyHash (ws ! j') \<noteq> keyHash (ws ! j))
              \<longrightarrow> m (keyHash (ws ! j)) = None)
        \<and> (is_schedule (length ws) sched \<longrightarrow>
             (\<forall>j < length ws.
                (\<exists>item w'. getCosignature E g j cp (ws ! j) = Some (Inr item, w'))
                \<longrightarrow> m (keyHash (ws ! j)) \<noteq> None))
        \<and> map publicKey (witnesses c') = map publicKey ws
        \<and> map keyHash (witnesses c') = map keyHash ws)"
proof (intro conjI impI)
  show "GetCosignatures E sched c head = None \<longleftrightarrow>
            (\<exists>j < length ws. getCosignature E g j cp (ws ! j) = None)"
  proof -
    have "GetCosignatures E sched c head = None \<longleftrightarrow> run_witnesses E g cp 0 ws = None"
      by (simp add: GetCosignatures_def Let_def cp g ws split: option.splits)
    then show ?thesis
      by (simp add: run_witnesses_None)
  qed
  then show "GetCosignatures E sched c head \<noteq> None"
    if stop: "\<forall>w \<in> set ws. \<exists>N. \<forall>k \<ge> N. \<forall>req oldSize. client w k req \<noteq> Inl (Conflict oldSize)"
  proof -
    have "getCosignature E g j cp (ws ! j) \<noteq> None" if "j < length ws" for j
    proof -
      from stop that obtain N
        where "\<forall>k \<ge> N. \<forall>req oldSize. client (ws ! j) k req \<noteq> Inl (Conflict oldSize)"
        by (meson nth_mem)
      then show ?thesis
        unfolding getCosignature_def by (intro getCosignature_loop_returns [of N]) simp
    qed
    with \<open>GetCosignatures E sched c head = None \<longleftrightarrow>
            (\<exists>j < length ws. getCosignature E g j cp (ws ! j) = None)\<close>
    show ?thesis by blast
  qed
next
  assume a: "GetCosignatures E sched c head = Some (m, c')"
  then obtain rs where run: "run_witnesses E g cp 0 ws = Some rs"
    and m: "m = receive_loop Map.empty (sent_items rs sched)"
    and c': "c' = c\<lparr>witnesses := map snd rs\<rparr>"
    using cp unfolding g ws by (rule GetCosignatures_Some)
  from run have len: "length rs = length ws"
    and each: "\<And>j. j < length ws \<Longrightarrow> getCosignature E g j cp (ws ! j) = Some (rs ! j)"
    by (simp_all add: run_witnesses_Some)
  have entry: "\<exists>j < length ws. \<exists>item w'. getCosignature E g j cp (ws ! j) = Some (Inr item, w')
           \<and> ci_keyHash item = kh \<and> ci_cs item = cs" if "m kh = Some cs" for kh cs
    using GetCosignatures_entry [OF run] that unfolding m by blast
  have kh: "keyHash (ws ! j) = HashBytes E (publicKey (ws ! j))" if "j < length ws" for j
    using inv that by simp
  show verified: "\<forall>kh cs. m kh = Some cs \<longrightarrow>
             (\<exists>j < length ws. kh = HashBytes E (publicKey (ws ! j))
                \<and> (\<exists>k req sigs. client (ws ! j) k req = Inr sigs
                      \<and> VerifyCosignatureByKey E cp sigs (publicKey (ws ! j)) = Inr cs))"
  proof (intro allI impI)
    fix kh cs
    assume "m kh = Some cs"
    from entry [OF this] obtain j item w' where j: "j < length ws"
      and r: "getCosignature E g j cp (ws ! j) = Some (Inr item, w')"
      and i: "ci_keyHash item = kh" "ci_cs item = cs"
      by blast
    from getCosignature_result(3) [OF r] i kh [OF j]
    have "kh = HashBytes E (publicKey (ws ! j))" by simp
    moreover from getCosignature_result(4) [OF r] i
    have "\<exists>k req sigs. client (ws ! j) k req = Inr sigs
            \<and> VerifyCosignatureByKey E cp sigs (publicKey (ws ! j)) = Inr cs"
      by simp
    ultimately show "\<exists>j < length ws. kh = HashBytes E (publicKey (ws ! j))
                \<and> (\<exists>k req sigs. client (ws ! j) k req = Inr sigs
                      \<and> VerifyCosignatureByKey E cp sigs (publicKey (ws ! j)) = Inr cs)"
      using j by blast
  qed
  show dom: "dom m \<subseteq> (\<lambda>w. HashBytes E (publicKey w)) ` set ws"
  proof
    fix kh
    assume "kh \<in> dom m"
    then obtain cs where "m kh = Some cs" by blast
    with verified obtain j where "j < length ws" "kh = HashBytes E (publicKey (ws ! j))"
      by blast
    then show "kh \<in> (\<lambda>w. HashBytes E (publicKey w)) ` set ws"
      by (auto intro!: image_eqI [where x = "ws ! j"])
  qed
  show "card (dom m) \<le> length ws"
  proof -
    have "card (dom m) \<le> card ((\<lambda>w. HashBytes E (publicKey w)) ` set ws)"
      using dom by (intro card_mono) simp_all
    also have "\<dots> \<le> card (set ws)" by (rule card_image_le) simp
    also have "\<dots> \<le> length ws" by (rule card_length)
    finally show ?thesis .
  qed
  show "\<forall>j < length ws.
              (\<exists>err w'. getCosignature E g j cp (ws ! j) = Some (Inl err, w'))
              \<and> (\<forall>j' < length ws. j' \<noteq> j \<longrightarrow> keyHash (ws ! j') \<noteq> keyHash (ws ! j))
              \<longrightarrow> m (keyHash (ws ! j)) = None"
  proof (intro allI impI)
    fix j
    assume j: "j < length ws"
      and b: "(\<exists>err w'. getCosignature E g j cp (ws ! j) = Some (Inl err, w'))
              \<and> (\<forall>j' < length ws. j' \<noteq> j \<longrightarrow> keyHash (ws ! j') \<noteq> keyHash (ws ! j))"
    show "m (keyHash (ws ! j)) = None"
    proof (rule ccontr)
      assume "m (keyHash (ws ! j)) \<noteq> None"
      then obtain cs where "m (keyHash (ws ! j)) = Some cs" by blast
      from entry [OF this] obtain j' item w' where j': "j' < length ws"
        and r: "getCosignature E g j' cp (ws ! j') = Some (Inr item, w')"
        and i: "ci_keyHash item = keyHash (ws ! j)"
        by blast
      from getCosignature_result(3) [OF r] i have "keyHash (ws ! j') = keyHash (ws ! j)"
        by simp
      with b j' have "j' = j" by blast
      with r b show False by auto
    qed
  qed
  show "map publicKey (witnesses c') = map publicKey ws"
  proof (rule nth_equalityI)
    show "length (map publicKey (witnesses c')) = length (map publicKey ws)"
      by (simp add: c' len)
    fix j
    assume "j < length (map publicKey (witnesses c'))"
    then have j: "j < length ws" by (simp add: c' len)
    from each [OF j] have "getCosignature E g j cp (ws ! j) = Some (fst (rs ! j), snd (rs ! j))"
      by simp
    from getCosignature_result(1) [OF this] j
    show "map publicKey (witnesses c') ! j = map publicKey ws ! j"
      by (simp add: c' len)
  qed
  show "map keyHash (witnesses c') = map keyHash ws"
  proof (rule nth_equalityI)
    show "length (map keyHash (witnesses c')) = length (map keyHash ws)"
      by (simp add: c' len)
    fix j
    assume "j < length (map keyHash (witnesses c'))"
    then have j: "j < length ws" by (simp add: c' len)
    from each [OF j] have "getCosignature E g j cp (ws ! j) = Some (fst (rs ! j), snd (rs ! j))"
      by simp
    from getCosignature_result(2) [OF this] j
    show "map keyHash (witnesses c') ! j = map keyHash ws ! j"
      by (simp add: c' len)
  qed
  show "\<forall>j < length ws.
                (\<exists>item w'. getCosignature E g j cp (ws ! j) = Some (Inr item, w'))
                \<longrightarrow> m (keyHash (ws ! j)) \<noteq> None"
    if sch: "is_schedule (length ws) sched"
  proof (intro allI impI)
    fix j
    assume j: "j < length ws"
      and "\<exists>item w'. getCosignature E g j cp (ws ! j) = Some (Inr item, w')"
    then obtain item w' where r: "getCosignature E g j cp (ws ! j) = Some (Inr item, w')"
      by blast
    with each [OF j] have "rs ! j = (Inr item, w')" by simp
    then have f: "fst (rs ! j) = Inr item" by simp
    from sch j have "j \<in> set sched" by (simp add: is_schedule_def)
    with f j len have "item \<in> set (sent_items rs sched)"
      by (auto simp: set_sent_items)
    then have "ci_keyHash item \<in> dom m"
      unfolding m dom_receive_loop by simp
    with getCosignature_result(3) [OF r] show "m (keyHash (ws ! j)) \<noteq> None"
      by auto
  qed
qed

text \<open>
  The claim as it is written has the collection return a map for every tree head.  With
  a witness that answers every attempt with a conflict, the loop of its query goes on
  for ever, and so the collection never returns.
\<close>

lemma witnesses_NewCosignatureCollector:
  "witnesses (NewCosignatureCollector E pk ws gcp) = map (newWitness E) ws"
proof -
  have "foldl (\<lambda>acc w. acc @ [newWitness E w]) acc ws = acc @ map (newWitness E) ws" for acc
    by (induction ws arbitrary: acc) simp_all
  then show ?thesis
    by (simp add: NewCosignatureCollector_def Let_def)
qed

lemma keyHash_NewCosignatureCollector:
  "\<forall>w \<in> set (witnesses (NewCosignatureCollector E pk ws gcp)).
     keyHash w = HashBytes E (publicKey w)"
  by (auto simp: witnesses_NewCosignatureCollector newWitness_def)

lemma test_collector_simps:
  "witnesses (test_collector ws) = map (newWitness test_witness_env) ws"
  "cc_getConsistencyProof (test_collector ws) = test_gcp"
  "\<lparr>cp_SignedTreeHead = test_head, cp_Origin = origin (test_collector ws),
     cp_KeyId = keyId (test_collector ws)\<rparr> = test_cp"
  by (simp_all add: test_collector_def witnesses_NewCosignatureCollector test_cp_def)
    (simp_all add: NewCosignatureCollector_def Let_def test_witness_env_def)

lemma getCosignature_busy:
  "getCosignature test_witness_env test_gcp i cp (newWitness test_witness_env busy_witness) = None"
  unfolding getCosignature_def
  by (rule getCosignature_loop_diverges)
    (simp_all add: test_gcp_def newWitness_def test_witness_env_def busy_witness_def)

lemma getCosignature_good:
  "getCosignature test_witness_env test_gcp i test_cp (newWitness test_witness_env good_witness)
   = Some (Inr \<lparr>ci_keyHash = [0, 1], ci_cs = [1]\<rparr>,
           (newWitness test_witness_env good_witness)\<lparr>prevSize := 5\<rparr>)"
  unfolding getCosignature_def
  by (subst getCosignature_loop.simps)
    (simp add: test_gcp_def newWitness_def test_witness_env_def good_witness_def test_cp_def
      test_head_def)

lemma getCosignature_down:
  "getCosignature test_witness_env test_gcp i test_cp (newWitness test_witness_env down_witness)
   = Some (Inl (Failure ''down''), newWitness test_witness_env down_witness)"
  unfolding getCosignature_def
  by (subst getCosignature_loop.simps)
    (simp add: test_gcp_def newWitness_def test_witness_env_def down_witness_def)

theorem GetCosignatures_never_returns:
  "GetCosignatures test_witness_env [0] (test_collector [busy_witness]) test_head = None"
  by (simp add: GetCosignatures_def test_collector_simps getCosignature_busy)

theorem GetCosignatures_collects_witness:
  "\<exists>m c'. GetCosignatures test_witness_env [1, 0] (test_collector [good_witness, down_witness])
              test_head = Some (m, c')
     \<and> dom m \<subseteq> {[0, 1], [0, 2]}
     \<and> m [0, 1] \<noteq> None
     \<and> m [0, 2] = None
     \<and> map publicKey (witnesses c') = [[1], [2]]"
proof -
  let ?c = "test_collector [good_witness, down_witness]"
  let ?ws = "[newWitness test_witness_env good_witness, newWitness test_witness_env down_witness]"
  have ws: "?ws = witnesses ?c"
    by (simp add: test_collector_simps)
  have cp: "test_cp = \<lparr>cp_SignedTreeHead = test_head, cp_Origin = origin ?c, cp_KeyId = keyId ?c\<rparr>"
    by (simp add: test_collector_simps)
  have g: "test_gcp = cc_getConsistencyProof ?c"
    by (simp add: test_collector_simps)
  have inv: "\<forall>w \<in> set ?ws. keyHash w = HashBytes test_witness_env (publicKey w)"
    unfolding ws test_collector_def by (rule keyHash_NewCosignatureCollector)
  note collects = GetCosignatures_collects [OF cp g ws inv, of "[1, 0]"]
  have returns: "\<not> (\<exists>j < length ?ws. getCosignature test_witness_env test_gcp j test_cp (?ws ! j) = None)"
  proof
    assume "\<exists>j < length ?ws. getCosignature test_witness_env test_gcp j test_cp (?ws ! j) = None"
    then obtain j where j: "j < length ?ws"
      and n: "getCosignature test_witness_env test_gcp j test_cp (?ws ! j) = None"
      by blast
    from j consider "j = 0" | "j = 1"
      by (auto simp: less_Suc_eq)
    then show False
      using n by cases (simp_all add: getCosignature_good getCosignature_down)
  qed
  with collects obtain m c' where
    r: "GetCosignatures test_witness_env [1, 0] ?c test_head = Some (m, c')"
    by (cases "GetCosignatures test_witness_env [1, 0] ?c test_head") auto
  have good: "\<exists>item w'. getCosignature test_witness_env test_gcp 0 test_cp (?ws ! 0)
      = Some (Inr item, w')"
    by (simp add: getCosignature_good)
  have d1: "\<exists>err w'. getCosignature test_witness_env test_gcp 1 test_cp (?ws ! 1)
        = Some (Inl err, w')"
    by (simp add: getCosignature_down)
  have d2: "\<forall>j' < length ?ws. j' \<noteq> 1 \<longrightarrow> keyHash (?ws ! j') \<noteq> keyHash (?ws ! 1)"
    by (simp add: less_Suc_eq_0_disj newWitness_def good_witness_def down_witness_def
        test_witness_env_def)
  from d1 d2
  have down: "(\<exists>err w'. getCosignature test_witness_env test_gcp 1 test_cp (?ws ! 1)
        = Some (Inl err, w'))
      \<and> (\<forall>j' < length ?ws. j' \<noteq> 1 \<longrightarrow> keyHash (?ws ! j') \<noteq> keyHash (?ws ! 1))"
    by (rule conjI)
  have sched: "is_schedule (length ?ws) [1, 0]"
    by (auto simp: is_schedule_def)
  from collects [of m c'] r
  have d: "dom m \<subseteq> (\<lambda>w. HashBytes test_witness_env (publicKey w)) ` set ?ws"
    and e: "\<forall>j < length ?ws.
              (\<exists>err w'. getCosignature test_witness_env test_gcp j test_cp (?ws ! j)
                 = Some (Inl err, w'))
              \<and> (\<forall>j' < length ?ws. j' \<noteq> j \<longrightarrow> keyHash (?ws ! j') \<noteq> keyHash (?ws ! j))
              \<longrightarrow> m (keyHash (?ws ! j)) = None"
    and s: "is_schedule (length ?ws) [1, 0] \<longrightarrow>
             (\<forall>j < length ?ws.
                (\<exists>item w'. getCosignature test_witness_env test_gcp j test_cp (?ws ! j)
                   = Some (Inr item, w'))
                \<longrightarrow> m (keyHash (?ws ! j)) \<noteq> None)"
    and p: "map publicKey (witnesses c') = map publicKey ?ws"
    by blast+
  from d have d': "dom m \<subseteq> {[0, 1], [0, 2]}"
    by (simp add: newWitness_def good_witness_def down_witness_def test_witness_env_def)
  from e down have "m (keyHash (?ws ! 1)) = None"
    by (metis One_nat_def length_Cons lessI list.size(3))
  then have e': "m [0, 2] = None"
    by (simp add: newWitness_def down_witness_def test_witness_env_def)
  from s sched good have "m (keyHash (?ws ! 0)) \<noteq> None"
    by (metis length_Cons zero_less_Suc)
  then have s': "m [0, 1] \<noteq> None"
    by (simp add: newWitness_def good_witness_def test_witness_env_def)
  from p have p': "map publicKey (witnesses c') = [[1], [2]]"
    by (simp add: newWitness_def good_witness_def down_witness_def)
  show ?thesis
    by (rule exI [of _ m], rule exI [of _ c']) (intro conjI r d' s' e' p')
qed

end
